theory Spec2Isabelle
  imports Main "HOL-Library.Sublist"
begin

section \<open>Python values\<close>

text \<open>
  The pipeline passes untyped dictionaries between its stages. A value is one of the
  JSON-like Python objects below. A \<open>string\<close> stands for a Python \<open>str\<close> with one
  \<open>char\<close> per code point (code points below 256). A dictionary is the list of its items
  in insertion order; the keys are strings and pairwise distinct, as in a Python \<open>dict\<close>,
  and a lookup reads the first item with the key.
\<close>

datatype pyval =
    PNone
  | PBool bool
  | PInt int
  | PStr string
  | PList "pyval list"
  | PDict "(string \<times> pyval) list"

type_synonym dict = "(string \<times> pyval) list"

text \<open>
  A raised exception, an instance of \<open>Exception\<close> (what the handlers of the program
  catch): its class, as far as a handler tells classes apart, and the text that
  \<open>str(e)\<close> gives.
\<close>

datatype exn_class = PdfReadError | KeyError | AttributeError | TypeError | OtherError

datatype exn = Exn (exn_class: exn_class) (descr: string)

definition ebind :: "exn + 'a \<Rightarrow> ('a \<Rightarrow> exn + 'b) \<Rightarrow> exn + 'b" where
  "ebind m f = (case m of Inl e \<Rightarrow> Inl e | Inr x \<Rightarrow> f x)"

subsection \<open>Truth value, equality, type name\<close>

fun truthy :: "pyval \<Rightarrow> bool" where
  "truthy PNone = False"
| "truthy (PBool b) = b"
| "truthy (PInt i) = (i \<noteq> 0)"
| "truthy (PStr s) = (s \<noteq> [])"
| "truthy (PList xs) = (xs \<noteq> [])"
| "truthy (PDict d) = (d \<noteq> [])"

text \<open>Python's \<open>==\<close>: \<open>bool\<close> is a subtype of \<open>int\<close>, dictionaries compare without order.\<close>

fun py_eq :: "pyval \<Rightarrow> pyval \<Rightarrow> bool" where
  "py_eq PNone PNone = True"
| "py_eq (PBool a) (PBool b) = (a = b)"
| "py_eq (PBool a) (PInt j) = ((if a then 1 else 0) = j)"
| "py_eq (PInt i) (PBool b) = (i = (if b then 1 else 0))"
| "py_eq (PInt i) (PInt j) = (i = j)"
| "py_eq (PStr s) (PStr t) = (s = t)"
| "py_eq (PList xs) (PList ys) = list_all2 py_eq xs ys"
| "py_eq (PDict d) (PDict e) =
     (length d = length e \<and>
      list_all (\<lambda>(k, v). case map_of e k of None \<Rightarrow> False | Some w \<Rightarrow> py_eq v w) d)"
| "py_eq _ _ = False"

fun type_name :: "pyval \<Rightarrow> string" where
  "type_name PNone = ''NoneType''"
| "type_name (PBool b) = ''bool''"
| "type_name (PInt i) = ''int''"
| "type_name (PStr s) = ''str''"
| "type_name (PList xs) = ''list''"
| "type_name (PDict d) = ''dict''"

subsection \<open>Text of a value: \<open>str\<close> and \<open>repr\<close>\<close>

fun dec :: "nat \<Rightarrow> string" where
  "dec n = (if n < 10 then [char_of (48 + n)] else dec (n div 10) @ [char_of (48 + n mod 10)])"

declare dec.simps [simp del]

definition hexdigit :: "nat \<Rightarrow> char" where
  "hexdigit d = (if d < 10 then char_of (48 + d) else char_of (87 + d))"

definition printable :: "nat \<Rightarrow> bool" where
  "printable n = ((32 \<le> n \<and> n \<le> 126) \<or> (161 \<le> n \<and> n \<le> 255 \<and> n \<noteq> 173))"

definition repr_char :: "char \<Rightarrow> char \<Rightarrow> string" where
  "repr_char q c =
     (let n = (of_char c :: nat) in
      if c = q \<or> n = 92 then [CHR 0x5C, c]
      else if n = 9 then [CHR 0x5C, CHR ''t'']
      else if n = 10 then [CHR 0x5C, CHR ''n'']
      else if n = 13 then [CHR 0x5C, CHR ''r'']
      else if printable n then [c]
      else [CHR 0x5C, CHR ''x'', hexdigit (n div 16), hexdigit (n mod 16)])"

definition repr_str :: "string \<Rightarrow> string" where
  "repr_str s =
     (let q = (if CHR 0x27 \<in> set s \<and> CHR 0x22 \<notin> set s then CHR 0x22 else CHR 0x27)
      in [q] @ concat (map (repr_char q) s) @ [q])"

fun join :: "string \<Rightarrow> string list \<Rightarrow> string" where
  "join sep [] = []"
| "join sep [x] = x"
| "join sep (x # y # ys) = x @ sep @ join sep (y # ys)"

fun py_repr :: "pyval \<Rightarrow> string" where
  "py_repr PNone = ''None''"
| "py_repr (PBool b) = (if b then ''True'' else ''False'')"
| "py_repr (PInt i) = (if i < 0 then ''-'' @ dec (nat (- i)) else dec (nat i))"
| "py_repr (PStr s) = repr_str s"
| "py_repr (PList xs) = ''['' @ join '', '' (map py_repr xs) @ '']''"
| "py_repr (PDict d) =
     ''{'' @ join '', '' (map (\<lambda>(k, v). repr_str k @ '': '' @ py_repr v) d) @ ''}''"

text \<open>\<open>str(v)\<close>, which is also what an f-string field \<open>{v}\<close> inserts.\<close>

definition py_str :: "pyval \<Rightarrow> string" where
  "py_str v = (case v of PStr s \<Rightarrow> s | _ \<Rightarrow> py_repr v)"

subsection \<open>Operations on dictionaries and sequences\<close>

text \<open>\<open>d.get(k, default)\<close>, \<open>k in d\<close>, \<open>d[k]\<close> and \<open>d[k] = v\<close> on a dictionary.\<close>

definition dict_get :: "dict \<Rightarrow> string \<Rightarrow> pyval \<Rightarrow> pyval" where
  "dict_get d k dflt = (case map_of d k of None \<Rightarrow> dflt | Some v \<Rightarrow> v)"

definition has_key :: "dict \<Rightarrow> string \<Rightarrow> bool" where
  "has_key d k = (map_of d k \<noteq> None)"

definition getitem :: "dict \<Rightarrow> string \<Rightarrow> exn + pyval" where
  "getitem d k = (case map_of d k of None \<Rightarrow> Inl (Exn KeyError (repr_str k)) | Some v \<Rightarrow> Inr v)"

fun dict_set :: "dict \<Rightarrow> string \<Rightarrow> pyval \<Rightarrow> dict" where
  "dict_set [] k v = [(k, v)]"
| "dict_set ((k', v') # d) k v = (if k' = k then (k, v) # d else (k', v') # dict_set d k v)"

text \<open>
  Methods and built-in functions on a value of any type: \<open>v.items()\<close>, iteration over
  \<open>v\<close>, \<open>len(v)\<close>. A method that the type lacks raises \<open>AttributeError\<close>.
\<close>

definition no_attribute :: "pyval \<Rightarrow> string \<Rightarrow> exn" where
  "no_attribute v a =
     Exn AttributeError ([CHR 0x27] @ type_name v @ [CHR 0x27] @ '' object has no attribute ''
                         @ [CHR 0x27] @ a @ [CHR 0x27])"

definition py_items :: "pyval \<Rightarrow> exn + (string \<times> pyval) list" where
  "py_items v = (case v of PDict d \<Rightarrow> Inr d | _ \<Rightarrow> Inl (no_attribute v ''items''))"

definition py_iter :: "pyval \<Rightarrow> exn + pyval list" where
  "py_iter v =
     (case v of
        PList xs \<Rightarrow> Inr xs
      | PStr s \<Rightarrow> Inr (map (\<lambda>c. PStr [c]) s)
      | PDict d \<Rightarrow> Inr (map (\<lambda>(k, _). PStr k) d)
      | _ \<Rightarrow> Inl (Exn TypeError ([CHR 0x27] @ type_name v @ [CHR 0x27] @ '' object is not iterable'')))"

definition py_len :: "pyval \<Rightarrow> exn + nat" where
  "py_len v =
     (case v of
        PStr s \<Rightarrow> Inr (length s)
      | PList xs \<Rightarrow> Inr (length xs)
      | PDict d \<Rightarrow> Inr (length d)
      | _ \<Rightarrow> Inl (Exn TypeError (''object of type '' @ [CHR 0x27] @ type_name v @ [CHR 0x27]
                                  @ '' has no len()'')))"

text \<open>\<open>sep.join(lines)\<close>: every item must be a \<open>str\<close>.\<close>

fun strings_of :: "nat \<Rightarrow> pyval list \<Rightarrow> exn + string list" where
  "strings_of i [] = Inr []"
| "strings_of i (PStr s # vs) = ebind (strings_of (Suc i) vs) (\<lambda>ss. Inr (s # ss))"
| "strings_of i (v # vs) =
     Inl (Exn TypeError (''sequence item '' @ dec i @ '': expected str instance, ''
                         @ type_name v @ '' found''))"

definition py_join :: "string \<Rightarrow> pyval list \<Rightarrow> exn + string" where
  "py_join sep vs = ebind (strings_of 0 vs) (\<lambda>ss. Inr (join sep ss))"

subsection \<open>String methods\<close>

definition lower_char :: "char \<Rightarrow> char" where
  "lower_char c =
     (let n = (of_char c :: nat) in
      if (65 \<le> n \<and> n \<le> 90) \<or> (192 \<le> n \<and> n \<le> 222 \<and> n \<noteq> 215) then char_of (n + 32) else c)"

definition lower :: "string \<Rightarrow> string" where
  "lower s = map lower_char s"

definition endswith :: "string \<Rightarrow> string \<Rightarrow> bool" where
  "endswith s ending = (length ending \<le> length s \<and> drop (length s - length ending) s = ending)"

definition isspace :: "char \<Rightarrow> bool" where
  "isspace c =
     (let n = (of_char c :: nat) in (9 \<le> n \<and> n \<le> 13) \<or> (28 \<le> n \<and> n \<le> 32) \<or> n = 133 \<or> n = 160)"

definition strip :: "string \<Rightarrow> string" where
  "strip s = rev (dropWhile isspace (rev (dropWhile isspace s)))"

section \<open>Computations that call external collaborators\<close>

text \<open>
  A computation either returns a value or raises, and it records, in order, the calls it
  made to functions outside the program. \<open>try_except\<close> is Python's
  \<open>try: ... except Exception as e: ...\<close>: the calls made before the fault stay recorded.
\<close>

type_synonym ('c, 'a) run = "(exn + 'a) \<times> 'c list"

definition ret :: "'a \<Rightarrow> ('c, 'a) run" where
  "ret x = (Inr x, [])"

definition call :: "'c \<Rightarrow> exn + 'a \<Rightarrow> ('c, 'a) run" where
  "call c r = (r, [c])"

definition lift :: "exn + 'a \<Rightarrow> ('c, 'a) run" where
  "lift r = (r, [])"

definition bind :: "('c, 'a) run \<Rightarrow> ('a \<Rightarrow> ('c, 'b) run) \<Rightarrow> ('c, 'b) run" where
  "bind m f =
     (case m of
        (Inl e, t) \<Rightarrow> (Inl e, t)
      | (Inr x, t) \<Rightarrow> (case f x of (r, t') \<Rightarrow> (r, t @ t')))"

definition try_except :: "('c, 'a) run \<Rightarrow> (exn \<Rightarrow> ('c, 'a) run) \<Rightarrow> ('c, 'a) run" where
  "try_except m handler =
     (case m of
        (Inl e, t) \<Rightarrow> (case handler e of (r, t') \<Rightarrow> (r, t @ t'))
      | (Inr x, t) \<Rightarrow> (Inr x, t))"

section \<open>The environment of the pipeline\<close>

text \<open>
  Everything the program reads from outside is a field of the record \<open>world\<close>:
  \<^item> the clock, read as \<open>datetime.now().strftime(...)\<close> when the aggregate is initialised
    and again in the fault handler of \<open>process_pdf\<close>;
  \<^item> the file system and the libraries \<open>magic\<close> and \<open>PyPDF2\<close> that \<open>validate_pdf\<close>
    calls; \<open>len_pages\<close> is \<open>len(pdf_reader.pages)\<close>, \<open>extract_first_page\<close> is
    \<open>pdf_reader.pages[0].extract_text()\<close>, which gives a \<open>str\<close>; a size is not negative;
  \<^item> the five extractors of the package \<open>utilities\<close>, whose sources are not among the
    files verified here: they are parameters. Modelled from the spec: the types of their
    results, which are those of the interface in section 6 of the specification (a
    mapping, two sequences, a mapping and a string), with untyped contents;
  \<^item> \<open>format_mb size\<close>, the text of the float \<open>size / (1024*1024)\<close> under the format
    \<open>.1f\<close>.
  \<^item> standard output: \<open>print_out text\<close> is \<open>print(text)\<close>, which raises when the
    stream cannot take the text (an encoding that lacks a character, a closed stream).
  Each function may raise instead of returning.
\<close>

record world =
  now_start :: string
  now_handler :: string
  os_path_exists :: "string \<Rightarrow> exn + bool"
  os_path_getsize :: "string \<Rightarrow> exn + nat"
  magic_from_file :: "string \<Rightarrow> exn + string"
  open_rb :: "string \<Rightarrow> exn + unit"
  pdf_reader :: "string \<Rightarrow> exn + unit"
  len_pages :: "string \<Rightarrow> exn + nat"
  extract_first_page :: "string \<Rightarrow> exn + string"
  format_mb :: "nat \<Rightarrow> string"
  extract_text_and_structure :: "string \<Rightarrow> exn + dict"
  extract_images :: "string \<Rightarrow> exn + pyval list"
  extract_tables :: "string \<Rightarrow> exn + pyval list"
  extract_metadata :: "string \<Rightarrow> exn + dict"
  perform_ocr :: "string \<Rightarrow> exn + string"
  print_out :: "string \<Rightarrow> exn + unit"

section \<open>The validator (validators.py)\<close>

datatype vcall =
  PathExists | GetSize | MagicFromFile | OpenFile | NewPdfReader | LenPages | ExtractFirstPage

definition invalid :: "string \<Rightarrow> dict" where
  "invalid msg = [(''valid'', PBool False), (''error'', PStr msg)]"

definition max_size :: nat where
  "max_size = 50 * 1024 * 1024"

text \<open>
  Lines 25 to 33, the check of the file type: \<open>Some d\<close> when the function returns \<open>d\<close>
  there, \<open>None\<close> when control goes on to the next check.
\<close>

definition check_file_type :: "world \<Rightarrow> string \<Rightarrow> (vcall, dict option) run" where
  "check_file_type W file_path =
     try_except
       (bind (call MagicFromFile (magic_from_file W file_path)) (\<lambda>file_type.
          if file_type \<noteq> ''application/pdf''
          then ret (Some (invalid (''Invalid file type: '' @ file_type @ ''. Expected PDF.'')))
          else ret None))
       (\<lambda>e. if \<not> endswith (lower file_path) ''.pdf''
            then ret (Some (invalid ''File does not have .pdf extension''))
            else ret None)"

text \<open>
  Lines 35 to 51, opening the file with PyPDF2: \<open>Inl d\<close> when the function returns \<open>d\<close>
  there, \<open>Inr (num_pages, text)\<close> when control goes on.
\<close>

definition read_pdf :: "world \<Rightarrow> string \<Rightarrow> (vcall, dict + nat \<times> string) run" where
  "read_pdf W file_path =
     try_except
       (bind (call OpenFile (open_rb W file_path)) (\<lambda>file.
        bind (call NewPdfReader (pdf_reader W file_path)) (\<lambda>reader.
        bind (call LenPages (len_pages W file_path)) (\<lambda>num_pages.
          if num_pages = 0 then ret (Inl (invalid ''PDF has no pages''))
          else bind (call ExtractFirstPage (extract_first_page W file_path)) (\<lambda>text.
                 ret (Inr (num_pages, text)))))))
       (\<lambda>e. if exn_class e = PdfReadError
            then ret (Inl (invalid (''Corrupted PDF: '' @ descr e)))
            else ret (Inl (invalid (''PDF validation failed: '' @ descr e))))"

definition validate_pdf :: "world \<Rightarrow> string \<Rightarrow> (vcall, dict) run" where
  "validate_pdf W file_path =
     try_except
       (bind (call PathExists (os_path_exists W file_path)) (\<lambda>exists.
          if \<not> exists then ret (invalid ''File does not exist'')
          else
            bind (call GetSize (os_path_getsize W file_path)) (\<lambda>file_size.
              if file_size = 0 then ret (invalid ''File is empty'')
              else if file_size > max_size
              then ret (invalid (''File too large: '' @ format_mb W file_size @ ''MB (max: 50MB)''))
              else
                bind (check_file_type W file_path) (\<lambda>returned.
                  case returned of
                    Some d \<Rightarrow> ret d
                  | None \<Rightarrow>
                      bind (read_pdf W file_path) (\<lambda>r.
                        case r of
                          Inl d \<Rightarrow> ret d
                        | Inr (num_pages, text) \<Rightarrow>
                            ret [(''valid'', PBool True),
                                 (''file_size'', PInt (int file_size)),
                                 (''num_pages'', PInt (int num_pages)),
                                 (''has_text'', PBool (length (strip text) > 0))])))))
       (\<lambda>e. ret (invalid (''Validation error: '' @ descr e)))"

section \<open>The orchestrator (main.py, process_pdf)\<close>

datatype pcall =
    Print string
  | ValidatePdf string
  | ExtractTextAndStructure string
  | ExtractImages string
  | ExtractTables string
  | ExtractMetadata string
  | PerformOcr string

definition initial_results :: "world \<Rightarrow> string \<Rightarrow> dict" where
  "initial_results W filename =
     [(''filename'', PStr filename),
      (''processed_at'', PStr (now_start W)),
      (''text_content'', PStr ''''),
      (''structure'', PDict []),
      (''images'', PList []),
      (''tables'', PList []),
      (''metadata'', PDict []),
      (''ocr_text'', PStr '''')]"

text \<open>\<open>print(text)\<close>: a call to standard output, which may raise.\<close>

definition py_print :: "world \<Rightarrow> string \<Rightarrow> (pcall, unit) run" where
  "py_print W text = call (Print text) (print_out W text)"

text \<open>
  Lines 28 to 74, the body of the \<open>try\<close> statement, with the six \<open>print\<close> calls of
  lines 28, 49, 55, 60, 65 and 70 in their places.
\<close>

definition process_body :: "world \<Rightarrow> string \<Rightarrow> string \<Rightarrow> (pcall, dict) run" where
  "process_body W pdf_path filename =
     bind (py_print W (''Processing '' @ filename @ ''...'')) (\<lambda>printed.
     let results = initial_results W filename in
     bind (call (ValidatePdf pdf_path) (fst (validate_pdf W pdf_path))) (\<lambda>validation_result.
     bind (lift (getitem validation_result ''valid'')) (\<lambda>valid.
       if \<not> truthy valid then
         bind (lift (getitem validation_result ''error'')) (\<lambda>err.
           ret (dict_set results ''error'' err))
       else
         bind (py_print W ''Extracting text and structure...'') (\<lambda>printed.
         bind (call (ExtractTextAndStructure pdf_path) (extract_text_and_structure W pdf_path))
           (\<lambda>text_data.
         let results = dict_set results ''text_content'' (dict_get text_data ''text'' (PStr ''''));
             results = dict_set results ''structure'' (dict_get text_data ''structure'' (PDict []))
         in
         bind (py_print W ''Extracting images...'') (\<lambda>printed.
         bind (call (ExtractImages pdf_path) (extract_images W pdf_path)) (\<lambda>images_data.
         let results = dict_set results ''images'' (PList images_data) in
         bind (py_print W ''Extracting tables...'') (\<lambda>printed.
         bind (call (ExtractTables pdf_path) (extract_tables W pdf_path)) (\<lambda>tables_data.
         let results = dict_set results ''tables'' (PList tables_data) in
         bind (py_print W ''Extracting metadata...'') (\<lambda>printed.
         bind (call (ExtractMetadata pdf_path) (extract_metadata W pdf_path)) (\<lambda>metadata.
         let results = dict_set results ''metadata'' (PDict metadata) in
         bind (py_print W ''Performing OCR...'') (\<lambda>printed.
         bind (call (PerformOcr pdf_path) (perform_ocr W pdf_path)) (\<lambda>ocr_text.
         let results = dict_set results ''ocr_text'' (PStr ocr_text) in
         ret results)))))))))))))"

text \<open>Lines 76 to 81, the aggregate that the handler builds.\<close>

definition failure_results :: "world \<Rightarrow> string \<Rightarrow> exn \<Rightarrow> dict" where
  "failure_results W filename e =
     [(''filename'', PStr filename),
      (''error'', PStr (''Processing failed: '' @ descr e)),
      (''processed_at'', PStr (now_handler W))]"

definition process_pdf :: "world \<Rightarrow> string \<Rightarrow> string \<Rightarrow> dict \<times> pcall list" where
  "process_pdf W pdf_path filename =
     (case process_body W pdf_path filename of
        (Inr results, t) \<Rightarrow> (results, t)
      | (Inl e, t) \<Rightarrow> (failure_results W filename e, t))"

section \<open>The renderer (main.py, generate_output_text)\<close>

text \<open>
  The function appends lines to \<open>output_lines\<close> block by block and joins them at the
  end. Each block of the source is a function that gives the lines it appends, or the
  exception it raises. \<open>str.title\<close> depends on the Unicode tables of the interpreter and
  is the parameter \<open>title\<close>.
\<close>

definition dashes :: string where
  "dashes = replicate 40 (CHR ''-'')"

definition rule80 :: string where
  "rule80 = replicate 80 (CHR ''='')"

text \<open>Lines 90 to 94.\<close>

definition banner :: "dict \<Rightarrow> exn + pyval list" where
  "banner results =
     ebind (getitem results ''filename'') (\<lambda>filename.
     ebind (getitem results ''processed_at'') (\<lambda>processed_at.
       Inr [PStr rule80,
            PStr (''PDF PROCESSING RESULTS: '' @ py_str filename),
            PStr (''Processed at: '' @ py_str processed_at),
            PStr rule80,
            PStr '''']))"

text \<open>Lines 102 to 108.\<close>

fun metadata_lines :: "(string \<Rightarrow> string) \<Rightarrow> (string \<times> pyval) list \<Rightarrow> pyval list" where
  "metadata_lines title [] = []"
| "metadata_lines title ((key, val) # items) =
     (if truthy val then [PStr (title key @ '': '' @ py_str val)] else [])
     @ metadata_lines title items"

definition metadata_section :: "(string \<Rightarrow> string) \<Rightarrow> dict \<Rightarrow> exn + pyval list" where
  "metadata_section title results =
     (if truthy (dict_get results ''metadata'' PNone) then
        ebind (getitem results ''metadata'') (\<lambda>metadata.
        ebind (py_items metadata) (\<lambda>items.
          Inr ([PStr ''DOCUMENT METADATA:'', PStr dashes]
               @ metadata_lines title items
               @ [PStr ''''])))
      else Inr [])"

text \<open>
  Lines 111 to 121. The first operation on \<open>structure\<close> is \<open>structure.get\<close>, which
  raises unless it is a dictionary.
\<close>

definition headings_lines :: "dict \<Rightarrow> exn + pyval list" where
  "headings_lines structure =
     (if has_key structure ''headings'' then
        ebind (getitem structure ''headings'') (\<lambda>headings.
        ebind (py_iter headings) (\<lambda>hs.
          Inr (PStr ''Headings Found:'' # map (\<lambda>heading. PStr (''  - '' @ py_str heading)) hs)))
      else Inr [])"

definition structure_section :: "dict \<Rightarrow> exn + pyval list" where
  "structure_section results =
     (if truthy (dict_get results ''structure'' PNone) then
        ebind (getitem results ''structure'') (\<lambda>structure.
          case structure of
            PDict d \<Rightarrow>
              ebind (headings_lines d) (\<lambda>hs.
                Inr ([PStr ''DOCUMENT STRUCTURE:'', PStr dashes,
                      PStr (''Total Pages: '' @ py_str (dict_get d ''total_pages'' (PStr ''Unknown'')))]
                     @ hs
                     @ [PStr '''']))
          | _ \<Rightarrow> Inl (no_attribute structure ''get''))
      else Inr [])"

text \<open>The loops \<open>for i, x in enumerate(xs, 1)\<close> of lines 127 and 140.\<close>

fun enumerate_blocks ::
  "(nat \<Rightarrow> pyval \<Rightarrow> exn + pyval list) \<Rightarrow> nat \<Rightarrow> pyval list \<Rightarrow> exn + pyval list" where
  "enumerate_blocks f i [] = Inr []"
| "enumerate_blocks f i (x # xs) =
     ebind (f i x) (\<lambda>b. ebind (enumerate_blocks f (Suc i) xs) (\<lambda>bs. Inr (b @ bs)))"

text \<open>Lines 128 to 133.\<close>

definition image_block :: "nat \<Rightarrow> pyval \<Rightarrow> exn + pyval list" where
  "image_block i img_info =
     (case img_info of
        PDict d \<Rightarrow>
          ebind (if truthy (dict_get d ''description'' PNone)
                 then ebind (getitem d ''description'') (\<lambda>description.
                        Inr [PStr (''  Description: '' @ py_str description)])
                 else Inr []) (\<lambda>ds.
            Inr ([PStr (''Image '' @ py_str (PInt (int i)) @ '':''),
                  PStr (''  Page: '' @ py_str (dict_get d ''page'' (PStr ''Unknown''))),
                  PStr (''  Size: '' @ py_str (dict_get d ''size'' (PStr ''Unknown''))),
                  PStr (''  Format: '' @ py_str (dict_get d ''format'' (PStr ''Unknown'')))]
                 @ ds))
      | _ \<Rightarrow> Inl (no_attribute img_info ''get''))"

definition images_section :: "dict \<Rightarrow> exn + pyval list" where
  "images_section results =
     (if truthy (dict_get results ''images'' PNone) then
        ebind (getitem results ''images'') (\<lambda>images.
        ebind (py_iter images) (\<lambda>items.
        ebind (enumerate_blocks image_block 1 items) (\<lambda>bs.
          Inr ([PStr ''EXTRACTED IMAGES:'', PStr dashes] @ bs @ [PStr '''']))))
      else Inr [])"

text \<open>Lines 141 to 152; \<open>preview\<close> is the conditional expression of line 151.\<close>

definition preview :: "string \<Rightarrow> string" where
  "preview content = (if length content > 200 then take 200 content @ ''...'' else content)"

definition content_lines :: "dict \<Rightarrow> exn + pyval list" where
  "content_lines table_info =
     (if has_key table_info ''content'' then
        ebind (getitem table_info ''content'') (\<lambda>content.
          Inr (PStr ''  Content Summary:''
               # (case content of PStr c \<Rightarrow> [PStr (''    '' @ preview c)] | _ \<Rightarrow> [])))
      else Inr [])"

definition table_block :: "nat \<Rightarrow> pyval \<Rightarrow> exn + pyval list" where
  "table_block i table_info =
     (case table_info of
        PDict d \<Rightarrow>
          ebind (content_lines d) (\<lambda>cs.
            Inr ([PStr (''Table '' @ py_str (PInt (int i)) @ '':''),
                  PStr (''  Page: '' @ py_str (dict_get d ''page'' (PStr ''Unknown''))),
                  PStr (''  Dimensions: '' @ py_str (dict_get d ''shape'' (PStr ''Unknown''))),
                  PStr (''  Accuracy: '' @ py_str (dict_get d ''accuracy'' (PStr ''Unknown'')) @ ''%'')]
                 @ cs))
      | _ \<Rightarrow> Inl (no_attribute table_info ''get''))"

definition tables_section :: "dict \<Rightarrow> exn + pyval list" where
  "tables_section results =
     (if truthy (dict_get results ''tables'' PNone) then
        ebind (getitem results ''tables'') (\<lambda>tables.
        ebind (py_iter tables) (\<lambda>items.
        ebind (enumerate_blocks table_block 1 items) (\<lambda>bs.
          Inr ([PStr ''EXTRACTED TABLES:'', PStr dashes] @ bs @ [PStr '''']))))
      else Inr [])"

text \<open>Lines 156 to 160. The value is appended as it is, whatever its type.\<close>

definition text_section :: "dict \<Rightarrow> exn + pyval list" where
  "text_section results =
     (if truthy (dict_get results ''text_content'' PNone) then
        ebind (getitem results ''text_content'') (\<lambda>text_content.
          Inr [PStr ''EXTRACTED TEXT CONTENT:'', PStr dashes, text_content, PStr ''''])
      else Inr [])"

text \<open>Lines 163 to 167; \<open>and\<close> evaluates its right operand only when the left one is true.\<close>

definition ocr_section :: "dict \<Rightarrow> exn + pyval list" where
  "ocr_section results =
     (if truthy (dict_get results ''ocr_text'' PNone) then
        ebind (getitem results ''ocr_text'') (\<lambda>ocr.
          if \<not> py_eq ocr (dict_get results ''text_content'' (PStr '''')) then
            ebind (getitem results ''ocr_text'') (\<lambda>ocr_text.
              Inr [PStr ''OCR EXTRACTED TEXT:'', PStr dashes, ocr_text, PStr ''''])
          else Inr [])
      else Inr [])"

text \<open>Lines 170 to 175.\<close>

definition summary :: "dict \<Rightarrow> exn + pyval list" where
  "summary results =
     ebind (py_len (dict_get results ''text_content'' (PStr ''''))) (\<lambda>text_length.
     ebind (py_len (dict_get results ''images'' (PList []))) (\<lambda>images_found.
     ebind (py_len (dict_get results ''tables'' (PList []))) (\<lambda>tables_found.
     ebind (py_len (dict_get results ''ocr_text'' (PStr ''''))) (\<lambda>ocr_length.
       Inr [PStr ''PROCESSING SUMMARY:'',
            PStr dashes,
            PStr (''Text Length: '' @ py_str (PInt (int text_length)) @ '' characters''),
            PStr (''Images Found: '' @ py_str (PInt (int images_found))),
            PStr (''Tables Found: '' @ py_str (PInt (int tables_found))),
            PStr (''OCR Length: '' @ py_str (PInt (int ocr_length)) @ '' characters'')]))))"

text \<open>The list \<open>output_lines\<close> at the \<open>return\<close> statement that is reached.\<close>

definition output_lines :: "(string \<Rightarrow> string) \<Rightarrow> dict \<Rightarrow> exn + pyval list" where
  "output_lines title results =
     ebind (banner results) (\<lambda>head.
       if has_key results ''error'' then
         ebind (getitem results ''error'') (\<lambda>err.
           Inr (head @ [PStr (''ERROR: '' @ py_str err)]))
       else
         ebind (metadata_section title results) (\<lambda>ms.
         ebind (structure_section results) (\<lambda>ss.
         ebind (images_section results) (\<lambda>im.
         ebind (tables_section results) (\<lambda>ts.
         ebind (text_section results) (\<lambda>xs.
         ebind (ocr_section results) (\<lambda>oc.
         ebind (summary results) (\<lambda>sm.
           Inr (head @ ms @ ss @ im @ ts @ xs @ oc @ sm)))))))))"

definition generate_output_text :: "(string \<Rightarrow> string) \<Rightarrow> dict \<Rightarrow> exn + string" where
  "generate_output_text title results =
     ebind (output_lines title results) (py_join [CHR 0x0A])"

text \<open>\<open>str.title\<close> on a string of ASCII characters, for evaluating the renderer.\<close>

definition ascii_alpha :: "char \<Rightarrow> bool" where
  "ascii_alpha c = (let n = (of_char c :: nat) in (65 \<le> n \<and> n \<le> 90) \<or> (97 \<le> n \<and> n \<le> 122))"

definition ascii_upper :: "char \<Rightarrow> char" where
  "ascii_upper c = (let n = (of_char c :: nat) in if 97 \<le> n \<and> n \<le> 122 then char_of (n - 32) else c)"

definition ascii_lower :: "char \<Rightarrow> char" where
  "ascii_lower c = (let n = (of_char c :: nat) in if 65 \<le> n \<and> n \<le> 90 then char_of (n + 32) else c)"

fun title_from :: "bool \<Rightarrow> string \<Rightarrow> string" where
  "title_from previous_is_cased [] = []"
| "title_from previous_is_cased (c # cs) =
     (if previous_is_cased then ascii_lower c else ascii_upper c) # title_from (ascii_alpha c) cs"

definition ascii_title :: "string \<Rightarrow> string" where
  "ascii_title s = title_from False s"

section \<open>Vocabulary of the properties\<close>

subsection \<open>The checks of the validator, as the specification lists them\<close>

text \<open>
  Section 4.1 of the specification names six checks, in order. \<open>passes\<close> says when a
  check succeeds in a world, \<open>failure_message\<close> which error it reports when it does not,
  and \<open>stage\<close> to which check a call of the validator belongs (the size is read once,
  for the two checks on it). \<open>pdf_extension\<close> is the extension \<open>.pdf\<close> in any case.
\<close>

datatype check = Existence | NonEmpty | SizeLimit | ContentType | Openable | FirstPageText

definition check_order :: "check list" where
  "check_order = [Existence, NonEmpty, SizeLimit, ContentType, Openable, FirstPageText]"

definition pdf_extension :: "string \<Rightarrow> bool" where
  "pdf_extension p =
     (4 \<le> length p \<and>
      (let e = drop (length p - 4) p
       in e ! 0 = CHR ''.'' \<and> e ! 1 \<in> {CHR ''p'', CHR ''P''} \<and> e ! 2 \<in> {CHR ''d'', CHR ''D''}
          \<and> e ! 3 \<in> {CHR ''f'', CHR ''F''}))"

fun passes :: "world \<Rightarrow> string \<Rightarrow> check \<Rightarrow> bool" where
  "passes W p Existence = (os_path_exists W p = Inr True)"
| "passes W p NonEmpty = (case os_path_getsize W p of Inr n \<Rightarrow> 0 < n | Inl e \<Rightarrow> False)"
| "passes W p SizeLimit =
     (case os_path_getsize W p of Inr n \<Rightarrow> n \<le> 50 * 1024 * 1024 | Inl e \<Rightarrow> False)"
| "passes W p ContentType =
     (case magic_from_file W p of Inr t \<Rightarrow> t = ''application/pdf'' | Inl e \<Rightarrow> pdf_extension p)"
| "passes W p Openable =
     (open_rb W p = Inr () \<and> pdf_reader W p = Inr () \<and>
      (case len_pages W p of Inr n \<Rightarrow> 1 \<le> n | Inl e \<Rightarrow> False))"
| "passes W p FirstPageText = (case extract_first_page W p of Inr t \<Rightarrow> True | Inl e \<Rightarrow> False)"

fun stage :: "vcall \<Rightarrow> check" where
  "stage PathExists = Existence"
| "stage GetSize = NonEmpty"
| "stage MagicFromFile = ContentType"
| "stage OpenFile = Openable"
| "stage NewPdfReader = Openable"
| "stage LenPages = Openable"
| "stage ExtractFirstPage = FirstPageText"

fun rank :: "check \<Rightarrow> nat" where
  "rank Existence = 0"
| "rank NonEmpty = 1"
| "rank SizeLimit = 2"
| "rank ContentType = 3"
| "rank Openable = 4"
| "rank FirstPageText = 5"

definition all_calls :: "vcall list" where
  "all_calls =
     [PathExists, GetSize, MagicFromFile, OpenFile, NewPdfReader, LenPages, ExtractFirstPage]"

definition reader_error :: "exn \<Rightarrow> string" where
  "reader_error e =
     (if exn_class e = PdfReadError then ''Corrupted PDF: '' @ descr e
      else ''PDF validation failed: '' @ descr e)"

fun failure_message :: "world \<Rightarrow> string \<Rightarrow> check \<Rightarrow> string" where
  "failure_message W p Existence =
     (case os_path_exists W p of
        Inl e \<Rightarrow> ''Validation error: '' @ descr e
      | Inr b \<Rightarrow> ''File does not exist'')"
| "failure_message W p NonEmpty =
     (case os_path_getsize W p of
        Inl e \<Rightarrow> ''Validation error: '' @ descr e
      | Inr n \<Rightarrow> ''File is empty'')"
| "failure_message W p SizeLimit =
     (case os_path_getsize W p of
        Inl e \<Rightarrow> ''Validation error: '' @ descr e
      | Inr n \<Rightarrow> ''File too large: '' @ format_mb W n @ ''MB (max: 50MB)'')"
| "failure_message W p ContentType =
     (case magic_from_file W p of
        Inl e \<Rightarrow> ''File does not have .pdf extension''
      | Inr t \<Rightarrow> ''Invalid file type: '' @ t @ ''. Expected PDF.'')"
| "failure_message W p Openable =
     (case open_rb W p of
        Inl e \<Rightarrow> reader_error e
      | Inr f \<Rightarrow>
          (case pdf_reader W p of
             Inl e \<Rightarrow> reader_error e
           | Inr r \<Rightarrow>
               (case len_pages W p of
                  Inl e \<Rightarrow> reader_error e
                | Inr n \<Rightarrow> ''PDF has no pages'')))"
| "failure_message W p FirstPageText =
     (case extract_first_page W p of Inl e \<Rightarrow> reader_error e | Inr t \<Rightarrow> [])"

text \<open>\<open>raised W p c\<close>: the call \<open>c\<close> of the validator raises in the world \<open>W\<close>.\<close>

fun raised :: "world \<Rightarrow> string \<Rightarrow> vcall \<Rightarrow> bool" where
  "raised W p PathExists = isl (os_path_exists W p)"
| "raised W p GetSize = isl (os_path_getsize W p)"
| "raised W p MagicFromFile = isl (magic_from_file W p)"
| "raised W p OpenFile = isl (open_rb W p)"
| "raised W p NewPdfReader = isl (pdf_reader W p)"
| "raised W p LenPages = isl (len_pages W p)"
| "raised W p ExtractFirstPage = isl (extract_first_page W p)"

subsection \<open>Outcomes of the validator and of the extractors\<close>

text \<open>
  \<open>validation_passes\<close>: the outcome of \<open>validate_pdf\<close> has \<open>valid = True\<close>.
  \<open>progress_messages\<close> are the six texts that \<open>process_pdf\<close> prints.
  \<open>step_faults\<close> lists, in the order of execution, the fault of each step of the body
  of \<open>process_pdf\<close> that can raise, if it raises: the first message, and, when validation
  passes, each further message followed by its extractor; \<open>first_fault\<close> is the first
  of them. \<open>is_extractor_call\<close> tells the calls of the five extractors from the others.
  \<open>no_key_error\<close>: a result that is not a \<open>KeyError\<close>, the exception of an index
  access to a missing field.
\<close>

definition validation_passes :: "world \<Rightarrow> string \<Rightarrow> bool" where
  "validation_passes W p =
     (case fst (validate_pdf W p) of
        Inr d \<Rightarrow> map_of d ''valid'' = Some (PBool True)
      | Inl e \<Rightarrow> False)"

definition fault :: "exn + 'a \<Rightarrow> exn option" where
  "fault r = (case r of Inl e \<Rightarrow> Some e | Inr x \<Rightarrow> None)"

definition progress_messages :: "string \<Rightarrow> string list" where
  "progress_messages filename =
     [''Processing '' @ filename @ ''...'',
      ''Extracting text and structure...'',
      ''Extracting images...'',
      ''Extracting tables...'',
      ''Extracting metadata...'',
      ''Performing OCR...'']"

definition step_faults :: "world \<Rightarrow> string \<Rightarrow> string \<Rightarrow> exn option list" where
  "step_faults W p filename =
     fault (print_out W (''Processing '' @ filename @ ''...'')) #
     (if validation_passes W p then
        [fault (print_out W ''Extracting text and structure...''),
         fault (extract_text_and_structure W p),
         fault (print_out W ''Extracting images...''),
         fault (extract_images W p),
         fault (print_out W ''Extracting tables...''),
         fault (extract_tables W p),
         fault (print_out W ''Extracting metadata...''),
         fault (extract_metadata W p),
         fault (print_out W ''Performing OCR...''),
         fault (perform_ocr W p)]
      else [])"

fun is_extractor_call :: "pcall \<Rightarrow> bool" where
  "is_extractor_call (Print text) = False"
| "is_extractor_call (ValidatePdf p) = False"
| "is_extractor_call c = True"

fun first_fault :: "exn option list \<Rightarrow> exn option" where
  "first_fault [] = None"
| "first_fault (Some e # fs) = Some e"
| "first_fault (None # fs) = first_fault fs"

definition no_key_error :: "exn + 'a \<Rightarrow> bool" where
  "no_key_error m = (case m of Inl e \<Rightarrow> exn_class e \<noteq> KeyError | Inr x \<Rightarrow> True)"

subsection \<open>The text of a report\<close>

text \<open>\<open>lines_text ls\<close>: the lines \<open>ls\<close>, each followed by a newline.\<close>

abbreviation lines_text :: "string list \<Rightarrow> string" where
  "lines_text ls \<equiv> concat (map (\<lambda>l. l @ [CHR 0x0A]) ls)"

section \<open>Sample documents\<close>

text \<open>
  Concrete worlds and aggregates on which the model is evaluated. \<open>sample_world\<close> is a
  one-page PDF of 2048 bytes with the text \<open>Hello\<close>; the other worlds change one
  collaborator of it. \<open>one_decimal_mb\<close> is the format \<open>.1f\<close> of \<open>size / (1024*1024)\<close>
  for a size below \<open>2 ^ 53\<close>, where the division of the floats is exact: the tenths,
  rounded to nearest, ties to even.
\<close>

definition one_decimal_mb :: "nat \<Rightarrow> string" where
  "one_decimal_mb n =
     (let q = (n * 10) div 1048576;
          r = (n * 10) mod 1048576;
          tenths = (if 524288 < r \<or> (r = 524288 \<and> odd q) then q + 1 else q)
      in dec (tenths div 10) @ ''.'' @ dec (tenths mod 10))"

definition sample_world :: world where
  "sample_world =
     \<lparr> now_start = ''2024-05-01 12:00:00'',
       now_handler = ''2024-05-01 12:00:03'',
       os_path_exists = (\<lambda>p. Inr True),
       os_path_getsize = (\<lambda>p. Inr 2048),
       magic_from_file = (\<lambda>p. Inr ''application/pdf''),
       open_rb = (\<lambda>p. Inr ()),
       pdf_reader = (\<lambda>p. Inr ()),
       len_pages = (\<lambda>p. Inr 1),
       extract_first_page = (\<lambda>p. Inr ''Hello''),
       format_mb = one_decimal_mb,
       extract_text_and_structure =
         (\<lambda>p. Inr [(''text'', PStr ''Hello''), (''structure'', PDict [(''total_pages'', PInt 1)])]),
       extract_images = (\<lambda>p. Inr []),
       extract_tables = (\<lambda>p. Inr []),
       extract_metadata = (\<lambda>p. Inr [(''title'', PStr ''Report'')]),
       perform_ocr = (\<lambda>p. Inr ''Hello''),
       print_out = (\<lambda>text. Inr ()) \<rparr>"

definition empty_world :: world where
  "empty_world =
     sample_world
       \<lparr> extract_text_and_structure :=
           (\<lambda>p. Inr [(''text'', PStr ''''), (''structure'', PDict [])]),
         extract_metadata := (\<lambda>p. Inr []),
         perform_ocr := (\<lambda>p. Inr '''') \<rparr>"

definition no_magic_world :: world where
  "no_magic_world =
     sample_world \<lparr> magic_from_file := (\<lambda>p. Inl (Exn OtherError ''failed to find libmagic'')) \<rparr>"

definition broken_tables_world :: world where
  "broken_tables_world =
     sample_world \<lparr> extract_tables := (\<lambda>p. Inl (Exn OtherError ''boom'')) \<rparr>"

definition missing_file_world :: world where
  "missing_file_world = sample_world \<lparr> os_path_exists := (\<lambda>p. Inr False) \<rparr>"

definition denied_world :: world where
  "denied_world =
     sample_world \<lparr> os_path_getsize := (\<lambda>p. Inl (Exn OtherError ''Permission denied'')) \<rparr>"

definition sample_results :: dict where
  "sample_results =
     [(''filename'', PStr ''a.pdf''),
      (''processed_at'', PStr ''2024-05-01 12:00:00''),
      (''text_content'', PStr ''Hello''),
      (''structure'', PDict [(''total_pages'', PInt 1)]),
      (''images'', PList []),
      (''tables'', PList []),
      (''metadata'', PDict [(''title'', PStr ''Report'')]),
      (''ocr_text'', PStr ''Hello'')]"

definition wide_table :: dict where
  "wide_table = [(''page'', PInt 2), (''content'', PStr (replicate 201 (CHR ''x'')))]"

text \<open>
  A standard output that encodes in ASCII: \<open>print\<close> raises \<open>UnicodeEncodeError\<close> on a
  text with a character that ASCII lacks (the message is the one for a single such
  character). \<open>accented_name\<close> is the file name \<open>caf\<close>, e with acute accent, \<open>.pdf\<close>.
\<close>

definition ascii_stdout :: "string \<Rightarrow> exn + unit" where
  "ascii_stdout text =
     (case find (\<lambda>c. 128 \<le> (of_char c :: nat)) text of
        None \<Rightarrow> Inr ()
      | Some c \<Rightarrow>
          Inl (Exn OtherError
                ([CHR 0x27] @ ''ascii'' @ [CHR 0x27] @ '' codec can'' @ [CHR 0x27]
                 @ ''t encode character '' @ [CHR 0x27, CHR 0x5C, CHR ''x'']
                 @ [hexdigit ((of_char c :: nat) div 16), hexdigit ((of_char c :: nat) mod 16)]
                 @ [CHR 0x27] @ '' in position ''
                 @ dec (length (takeWhile (\<lambda>c. (of_char c :: nat) < 128) text))
                 @ '': ordinal not in range(128)'')))"

definition accented_name :: string where
  "accented_name = ''caf'' @ [CHR 0xE9] @ ''.pdf''"

definition encode_error :: exn where
  "encode_error =
     Exn OtherError
       ([CHR 0x27] @ ''ascii'' @ [CHR 0x27] @ '' codec can'' @ [CHR 0x27]
        @ ''t encode character '' @ [CHR 0x27, CHR 0x5C] @ ''xe9'' @ [CHR 0x27]
        @ '' in position 14: ordinal not in range(128)'')"

definition ascii_stdout_world :: world where
  "ascii_stdout_world = sample_world \<lparr> print_out := ascii_stdout \<rparr>"

definition missing_ascii_world :: world where
  "missing_ascii_world = missing_file_world \<lparr> print_out := ascii_stdout \<rparr>"

text \<open>The report of \<open>sample_results\<close>, and an aggregate with one table and its report.\<close>

definition sample_report :: string where
  "sample_report =
     lines_text
       [rule80,
        ''PDF PROCESSING RESULTS: a.pdf'',
        ''Processed at: 2024-05-01 12:00:00'',
        rule80,
        '''',
        ''DOCUMENT METADATA:'',
        dashes,
        ''Title: Report'',
        '''',
        ''DOCUMENT STRUCTURE:'',
        dashes,
        ''Total Pages: 1'',
        '''',
        ''EXTRACTED TEXT CONTENT:'',
        dashes,
        ''Hello'',
        '''',
        ''PROCESSING SUMMARY:'',
        dashes,
        ''Text Length: 5 characters'',
        ''Images Found: 0'',
        ''Tables Found: 0'']
     @ ''OCR Length: 5 characters''"

definition table_results :: dict where
  "table_results =
     [(''filename'', PStr ''a.pdf''),
      (''processed_at'', PStr ''2024-05-01 12:00:00''),
      (''text_content'', PStr ''Hello''),
      (''structure'', PDict []),
      (''images'', PList []),
      (''tables'', PList [PDict wide_table]),
      (''metadata'', PDict []),
      (''ocr_text'', PStr ''Hello'')]"

definition table_report :: string where
  "table_report =
     lines_text
       [rule80,
        ''PDF PROCESSING RESULTS: a.pdf'',
        ''Processed at: 2024-05-01 12:00:00'',
        rule80,
        '''',
        ''EXTRACTED TABLES:'',
        dashes,
        ''Table 1:'',
        ''  Page: 2'',
        ''  Dimensions: Unknown'',
        ''  Accuracy: Unknown%'',
        ''  Content Summary:'',
        ''    '' @ replicate 200 (CHR ''x'') @ ''...'',
        '''',
        ''EXTRACTED TEXT CONTENT:'',
        dashes,
        ''Hello'',
        '''',
        ''PROCESSING SUMMARY:'',
        dashes,
        ''Text Length: 5 characters'',
        ''Images Found: 0'',
        ''Tables Found: 1'']
     @ ''OCR Length: 5 characters''"

section \<open>Auxiliary lemmas\<close>

lemma bind_Inl [simp]: "bind (Inl e, t) f = (Inl e, t)"
  by (simp add: bind_def)

lemma bind_Inr [simp]: "bind (Inr x, t) f = (fst (f x), t @ snd (f x))"
  by (simp add: bind_def split: prod.splits)

lemma try_except_Inl [simp]: "try_except (Inl e, t) h = (fst (h e), t @ snd (h e))"
  by (simp add: try_except_def split: prod.splits)

lemma try_except_Inr [simp]: "try_except (Inr x, t) h = (Inr x, t)"
  by (simp add: try_except_def)

lemmas run_simps = ret_def call_def lift_def

lemma of_char_lower_char:
  "(of_char (lower_char c) :: nat) =
     (if (65 \<le> (of_char c :: nat) \<and> (of_char c :: nat) \<le> 90) \<or>
         (192 \<le> (of_char c :: nat) \<and> (of_char c :: nat) \<le> 222 \<and> (of_char c :: nat) \<noteq> 215)
      then of_char c + 32 else of_char c)"
proof -
  have "(of_char c :: nat) \<le> 222 \<Longrightarrow> (of_char c + 32) mod 256 = (of_char c + 32 :: nat)"
    by simp
  then show ?thesis
    unfolding lower_char_def Let_def
    by (simp only: of_char_of split: if_splits) auto
qed

lemma lower_char_eq_iff:
  "lower_char c = CHR ''.'' \<longleftrightarrow> c = CHR ''.''"
  "lower_char c = CHR ''p'' \<longleftrightarrow> c = CHR ''p'' \<or> c = CHR ''P''"
  "lower_char c = CHR ''d'' \<longleftrightarrow> c = CHR ''d'' \<or> c = CHR ''D''"
  "lower_char c = CHR ''f'' \<longleftrightarrow> c = CHR ''f'' \<or> c = CHR ''F''"
proof -
  have eq: "\<And>x y. x = y \<longleftrightarrow> (of_char x :: nat) = of_char y"
    by simp
  show "lower_char c = CHR ''.'' \<longleftrightarrow> c = CHR ''.''"
    by (simp only: eq [of "lower_char c"] eq [of c] of_char_lower_char) (auto split: if_splits)
  show "lower_char c = CHR ''p'' \<longleftrightarrow> c = CHR ''p'' \<or> c = CHR ''P''"
    by (simp only: eq [of "lower_char c"] eq [of c] of_char_lower_char) (auto split: if_splits)
  show "lower_char c = CHR ''d'' \<longleftrightarrow> c = CHR ''d'' \<or> c = CHR ''D''"
    by (simp only: eq [of "lower_char c"] eq [of c] of_char_lower_char) (auto split: if_splits)
  show "lower_char c = CHR ''f'' \<longleftrightarrow> c = CHR ''f'' \<or> c = CHR ''F''"
    by (simp only: eq [of "lower_char c"] eq [of c] of_char_lower_char) (auto split: if_splits)
qed

lemma endswith_lower_pdf: "endswith (lower p) ''.pdf'' \<longleftrightarrow> pdf_extension p"
proof (cases "4 \<le> length p")
  case False
  then show ?thesis by (simp add: endswith_def lower_def pdf_extension_def)
next
  case True
  define e where "e = drop (length p - 4) p"
  have len: "length e = Suc (Suc (Suc (Suc 0)))" using True by (simp add: e_def)
  then obtain a b c d where e: "e = [a, b, c, d]"
    by (auto simp add: length_Suc_conv)
  have four: "Suc (Suc (Suc (Suc 0))) = 4" by simp
  have "endswith (lower p) ''.pdf'' \<longleftrightarrow> map lower_char e = ''.pdf''"
    using True by (simp add: endswith_def lower_def e_def drop_map four)
  also have "\<dots> \<longleftrightarrow> pdf_extension p"
    using True by (simp add: pdf_extension_def e_def [symmetric] e lower_char_eq_iff Let_def)
  finally show ?thesis .
qed

lemma check_file_type_eq:
  "check_file_type W p =
     (case magic_from_file W p of
        Inr t \<Rightarrow>
          (Inr (if t \<noteq> ''application/pdf''
                then Some (invalid (''Invalid file type: '' @ t @ ''. Expected PDF.''))
                else None), [MagicFromFile])
      | Inl e \<Rightarrow>
          (Inr (if \<not> pdf_extension p
                then Some (invalid ''File does not have .pdf extension'')
                else None), [MagicFromFile]))"
  by (simp add: check_file_type_def run_simps endswith_lower_pdf split: sum.splits)

lemma read_pdf_eq:
  "read_pdf W p =
     (case open_rb W p of
        Inl e \<Rightarrow> (Inr (Inl (invalid (reader_error e))), [OpenFile])
      | Inr f \<Rightarrow>
          (case pdf_reader W p of
             Inl e \<Rightarrow> (Inr (Inl (invalid (reader_error e))), [OpenFile, NewPdfReader])
           | Inr r \<Rightarrow>
               (case len_pages W p of
                  Inl e \<Rightarrow> (Inr (Inl (invalid (reader_error e))), [OpenFile, NewPdfReader, LenPages])
                | Inr n \<Rightarrow>
                    if n = 0 then (Inr (Inl (invalid ''PDF has no pages'')), [OpenFile, NewPdfReader, LenPages])
                    else
                      (case extract_first_page W p of
                         Inl e \<Rightarrow> (Inr (Inl (invalid (reader_error e))),
                                    [OpenFile, NewPdfReader, LenPages, ExtractFirstPage])
                       | Inr t \<Rightarrow> (Inr (Inr (n, t)),
                                    [OpenFile, NewPdfReader, LenPages, ExtractFirstPage])))))"
  by (simp add: read_pdf_def run_simps reader_error_def split: sum.splits)

lemma validate_pdf_eq:
  "validate_pdf W p =
     (case os_path_exists W p of
        Inl e \<Rightarrow> (Inr (invalid (''Validation error: '' @ descr e)), [PathExists])
      | Inr ex \<Rightarrow>
          if \<not> ex then (Inr (invalid ''File does not exist''), [PathExists])
          else
            (case os_path_getsize W p of
               Inl e \<Rightarrow> (Inr (invalid (''Validation error: '' @ descr e)), [PathExists, GetSize])
             | Inr n \<Rightarrow>
                 if n = 0 then (Inr (invalid ''File is empty''), [PathExists, GetSize])
                 else if n > max_size
                 then (Inr (invalid (''File too large: '' @ format_mb W n @ ''MB (max: 50MB)'')),
                       [PathExists, GetSize])
                 else
                   (case fst (check_file_type W p) of
                      Inl e \<Rightarrow> (Inr (invalid (''Validation error: '' @ descr e)),
                                 PathExists # GetSize # snd (check_file_type W p))
                    | Inr (Some d) \<Rightarrow> (Inr d, PathExists # GetSize # snd (check_file_type W p))
                    | Inr None \<Rightarrow>
                        (case fst (read_pdf W p) of
                           Inl e \<Rightarrow> (Inr (invalid (''Validation error: '' @ descr e)),
                                      PathExists # GetSize # snd (check_file_type W p) @ snd (read_pdf W p))
                         | Inr (Inl d) \<Rightarrow>
                             (Inr d, PathExists # GetSize # snd (check_file_type W p) @ snd (read_pdf W p))
                         | Inr (Inr (num_pages, text)) \<Rightarrow>
                             (Inr [(''valid'', PBool True),
                                   (''file_size'', PInt (int n)),
                                   (''num_pages'', PInt (int num_pages)),
                                   (''has_text'', PBool (length (strip text) > 0))],
                              PathExists # GetSize # snd (check_file_type W p) @ snd (read_pdf W p))))))"
  unfolding validate_pdf_def
  apply (cases "os_path_exists W p"; simp add: run_simps)
  apply (cases "os_path_getsize W p"; simp add: run_simps)
  apply (cases "check_file_type W p"; simp add: run_simps)
  apply (cases "read_pdf W p")
  apply (auto simp add: run_simps split: sum.splits option.splits prod.splits)
  done

lemmas validate_unfold = validate_pdf_eq check_file_type_eq read_pdf_eq all_calls_def check_order_def max_size_def

lemma validate_pdf_prefix: "prefix (snd (validate_pdf W p)) all_calls"
  apply (cases "os_path_exists W p"; simp add: validate_unfold)
  apply (cases "os_path_getsize W p"; simp add: validate_unfold)
  apply (cases "magic_from_file W p"; simp add: validate_unfold)
   apply (cases "open_rb W p"; simp add: validate_unfold)
   apply (cases "pdf_reader W p"; simp add: validate_unfold)
   apply (cases "len_pages W p"; simp add: validate_unfold)
   apply (cases "extract_first_page W p"; simp add: validate_unfold)
  apply (cases "open_rb W p"; simp add: validate_unfold)
  apply (cases "pdf_reader W p"; simp add: validate_unfold)
  apply (cases "len_pages W p"; simp add: validate_unfold)
  apply (cases "extract_first_page W p"; simp add: validate_unfold)
  done

lemma invalid_eq_iff [simp]: "invalid a = invalid b \<longleftrightarrow> a = b"
  by (simp add: invalid_def)

lemma map_of_invalid [simp]:
  "map_of (invalid msg) ''valid'' = Some (PBool False)"
  "map_of (invalid msg) ''error'' = Some (PStr msg)"
  by (simp_all add: invalid_def)

lemma validate_pdf_outcome:
  "(\<exists>d. fst (validate_pdf W p) = Inr d \<and> map_of d ''valid'' = Some (PBool True)) \<or>
   (\<exists>msg. fst (validate_pdf W p) = Inr (invalid msg) \<and> msg \<noteq> [])"
  apply (cases "os_path_exists W p"; simp add: validate_unfold)
  apply (cases "os_path_getsize W p"; simp add: validate_unfold)
  apply (cases "magic_from_file W p"; simp add: validate_unfold)
   apply (cases "open_rb W p"; simp add: validate_unfold reader_error_def)
   apply (cases "pdf_reader W p"; simp add: validate_unfold reader_error_def)
   apply (cases "len_pages W p"; simp add: validate_unfold reader_error_def)
   apply (cases "extract_first_page W p"; simp add: validate_unfold reader_error_def)
  apply (cases "open_rb W p"; simp add: validate_unfold reader_error_def)
  apply (cases "pdf_reader W p"; simp add: validate_unfold reader_error_def)
  apply (cases "len_pages W p"; simp add: validate_unfold reader_error_def)
  apply (cases "extract_first_page W p"; simp add: validate_unfold reader_error_def)
  done

lemma validation_fails:
  assumes "\<not> validation_passes W p"
  shows "\<exists>msg. fst (validate_pdf W p) = Inr (invalid msg) \<and> msg \<noteq> []"
  using assms validate_pdf_outcome [of W p]
  by (auto simp add: validation_passes_def)

lemma validation_passes_iff:
  "validation_passes W p \<longleftrightarrow>
     (\<exists>d. fst (validate_pdf W p) = Inr d \<and> map_of d ''valid'' = Some (PBool True))"
  by (auto simp add: validation_passes_def split: sum.splits)

lemma py_print_eq [simp]: "py_print W text = (print_out W text, [Print text])"
  by (simp add: py_print_def call_def)

lemma process_body_print_fault:
  assumes "print_out W (''Processing '' @ fn @ ''...'') = Inl e"
  shows "process_body W p fn = (Inl e, [Print (''Processing '' @ fn @ ''...'')])"
  using assms by (simp add: process_body_def)

lemma process_body_invalid:
  assumes "print_out W (''Processing '' @ fn @ ''...'') = Inr u"
    and "fst (validate_pdf W p) = Inr (invalid msg)"
  shows "process_body W p fn =
           (Inr [(''filename'', PStr fn),
                 (''processed_at'', PStr (now_start W)),
                 (''text_content'', PStr ''''),
                 (''structure'', PDict []),
                 (''images'', PList []),
                 (''tables'', PList []),
                 (''metadata'', PDict []),
                 (''ocr_text'', PStr ''''),
                 (''error'', PStr msg)],
            [Print (''Processing '' @ fn @ ''...''), ValidatePdf p])"
  using assms
  by (simp add: process_body_def run_simps invalid_def getitem_def initial_results_def)

lemma process_body_valid:
  assumes "validation_passes W p"
    and "print_out W (''Processing '' @ fn @ ''...'') = Inr u"
  shows "process_body W p fn =
     bind (Inr (), [Print (''Processing '' @ fn @ ''...''), ValidatePdf p]) (\<lambda>validated.
     bind (py_print W ''Extracting text and structure...'') (\<lambda>printed.
     bind (call (ExtractTextAndStructure p) (extract_text_and_structure W p)) (\<lambda>text_data.
     bind (py_print W ''Extracting images...'') (\<lambda>printed.
     bind (call (ExtractImages p) (extract_images W p)) (\<lambda>images_data.
     bind (py_print W ''Extracting tables...'') (\<lambda>printed.
     bind (call (ExtractTables p) (extract_tables W p)) (\<lambda>tables_data.
     bind (py_print W ''Extracting metadata...'') (\<lambda>printed.
     bind (call (ExtractMetadata p) (extract_metadata W p)) (\<lambda>metadata.
     bind (py_print W ''Performing OCR...'') (\<lambda>printed.
     bind (call (PerformOcr p) (perform_ocr W p)) (\<lambda>ocr_text.
       ret [(''filename'', PStr fn),
            (''processed_at'', PStr (now_start W)),
            (''text_content'', dict_get text_data ''text'' (PStr '''')),
            (''structure'', dict_get text_data ''structure'' (PDict [])),
            (''images'', PList images_data),
            (''tables'', PList tables_data),
            (''metadata'', PDict metadata),
            (''ocr_text'', PStr ocr_text)])))))))))))"
proof -
  from assms(1) obtain d where d: "fst (validate_pdf W p) = Inr d" "map_of d ''valid'' = Some (PBool True)"
    by (auto simp add: validation_passes_iff)
  show ?thesis
    unfolding process_body_def
    using assms(2)
    by (simp add: d call_def lift_def getitem_def initial_results_def)
qed

lemma process_pdf_invalid:
  assumes "print_out W (''Processing '' @ fn @ ''...'') = Inr u"
    and "fst (validate_pdf W p) = Inr (invalid msg)"
  shows "process_pdf W p fn =
           ([(''filename'', PStr fn),
             (''processed_at'', PStr (now_start W)),
             (''text_content'', PStr ''''),
             (''structure'', PDict []),
             (''images'', PList []),
             (''tables'', PList []),
             (''metadata'', PDict []),
             (''ocr_text'', PStr ''''),
             (''error'', PStr msg)],
            [Print (''Processing '' @ fn @ ''...''), ValidatePdf p])"
  by (simp add: process_pdf_def process_body_invalid [OF assms])

lemma process_body_fault_iff:
  "fst (process_body W p fn) = Inl e \<longleftrightarrow> first_fault (step_faults W p fn) = Some e"
proof (cases "print_out W (''Processing '' @ fn @ ''...'')")
  case (Inl a)
  then show ?thesis
    using process_body_print_fault [OF Inl, of p] by (simp add: step_faults_def fault_def)
next
  case (Inr u)
  show ?thesis
  proof (cases "validation_passes W p")
    case True
    show ?thesis
      using Inr
      apply (simp add: True process_body_valid [OF True Inr] step_faults_def fault_def)
      apply (cases "print_out W ''Extracting text and structure...''"; simp add: run_simps)
      apply (cases "extract_text_and_structure W p"; simp)
      apply (cases "print_out W ''Extracting images...''"; simp)
      apply (cases "extract_images W p"; simp)
      apply (cases "print_out W ''Extracting tables...''"; simp)
      apply (cases "extract_tables W p"; simp)
      apply (cases "print_out W ''Extracting metadata...''"; simp)
      apply (cases "extract_metadata W p"; simp)
      apply (cases "print_out W ''Performing OCR...''"; simp)
      apply (cases "perform_ocr W p"; simp)
      done
  next
    case False
    from validation_fails [OF False] obtain msg where "fst (validate_pdf W p) = Inr (invalid msg)"
      by blast
    then show ?thesis
      using Inr by (simp add: False process_body_invalid [OF Inr] step_faults_def fault_def)
  qed
qed

lemma process_pdf_fault:
  assumes "fst (process_body W p fn) = Inl e"
  shows "fst (process_pdf W p fn) = failure_results W fn e"
  using assms by (cases "process_body W p fn") (simp add: process_pdf_def)

lemma process_pdf_has_keys:
  "has_key (fst (process_pdf W p fn)) ''filename'' \<and>
   has_key (fst (process_pdf W p fn)) ''processed_at''"
proof (cases "print_out W (''Processing '' @ fn @ ''...'')")
  case (Inl a)
  then show ?thesis
    by (simp add: process_pdf_def process_body_print_fault [OF Inl] failure_results_def has_key_def)
next
  case (Inr u)
  show ?thesis
  proof (cases "validation_passes W p")
    case False
    from validation_fails [OF False] obtain msg where "fst (validate_pdf W p) = Inr (invalid msg)"
      by blast
    then show ?thesis
      by (simp add: process_pdf_invalid [OF Inr] has_key_def)
  next
    case True
    show ?thesis
      apply (simp add: process_pdf_def process_body_valid [OF True Inr])
      apply (cases "print_out W ''Extracting text and structure...''";
             simp add: run_simps failure_results_def has_key_def)
      apply (cases "extract_text_and_structure W p"; simp add: failure_results_def has_key_def)
      apply (cases "print_out W ''Extracting images...''"; simp add: failure_results_def has_key_def)
      apply (cases "extract_images W p"; simp add: failure_results_def has_key_def)
      apply (cases "print_out W ''Extracting tables...''"; simp add: failure_results_def has_key_def)
      apply (cases "extract_tables W p"; simp add: failure_results_def has_key_def)
      apply (cases "print_out W ''Extracting metadata...''"; simp add: failure_results_def has_key_def)
      apply (cases "extract_metadata W p"; simp add: failure_results_def has_key_def)
      apply (cases "print_out W ''Performing OCR...''"; simp add: failure_results_def has_key_def)
      apply (cases "perform_ocr W p"; simp add: failure_results_def has_key_def)
      done
  qed
qed

lemma process_pdf_no_extractor:
  assumes "\<not> validation_passes W p"
  shows "\<forall>c \<in> set (snd (process_pdf W p fn)). \<not> is_extractor_call c"
proof (cases "print_out W (''Processing '' @ fn @ ''...'')")
  case (Inl a)
  then show ?thesis
    by (simp add: process_pdf_def process_body_print_fault [OF Inl])
next
  case (Inr u)
  from validation_fails [OF assms] obtain msg where "fst (validate_pdf W p) = Inr (invalid msg)"
    by blast
  then show ?thesis
    by (simp add: process_pdf_invalid [OF Inr])
qed

lemma ebind_Inl [simp]: "ebind (Inl e) f = Inl e"
  by (simp add: ebind_def)

lemma ebind_Inr [simp]: "ebind (Inr x) f = f x"
  by (simp add: ebind_def)

lemma ebind_eq_Inr: "ebind m f = Inr y \<longleftrightarrow> (\<exists>x. m = Inr x \<and> f x = Inr y)"
  by (cases m) simp_all

lemma getitem_truthy:
  "truthy (dict_get r k PNone) \<Longrightarrow> getitem r k = Inr (dict_get r k PNone)"
  by (auto simp add: dict_get_def getitem_def split: option.splits)

lemma getitem_has_key:
  "has_key r k \<Longrightarrow> getitem r k = Inr (dict_get r k dflt)"
  by (auto simp add: dict_get_def getitem_def has_key_def split: option.splits)

lemma ocr_section_cases:
  "ocr_section r =
     Inr (if truthy (dict_get r ''ocr_text'' PNone) \<and>
             \<not> py_eq (dict_get r ''ocr_text'' PNone) (dict_get r ''text_content'' (PStr ''''))
          then [PStr ''OCR EXTRACTED TEXT:'', PStr dashes, dict_get r ''ocr_text'' PNone, PStr '''']
          else [])"
  by (simp add: ocr_section_def getitem_truthy)

lemma summary_length: "summary r = Inr sm \<Longrightarrow> length sm = 6"
  by (auto simp add: summary_def ebind_eq_Inr)

lemma output_lines_sections:
  assumes "\<not> has_key r ''error''" and "output_lines title r = Inr ls"
  shows "\<exists>head ms ss im ts xs os sm.
           banner r = Inr head \<and> metadata_section title r = Inr ms \<and>
           structure_section r = Inr ss \<and> images_section r = Inr im \<and>
           tables_section r = Inr ts \<and> text_section r = Inr xs \<and>
           ocr_section r = Inr os \<and> summary r = Inr sm \<and>
           ls = head @ ms @ ss @ im @ ts @ xs @ os @ sm"
  using assms unfolding output_lines_def
  apply (cases "banner r"; simp)
  apply (cases "metadata_section title r"; simp)
  apply (cases "structure_section r"; simp)
  apply (cases "images_section r"; simp)
  apply (cases "tables_section r"; simp)
  apply (cases "text_section r"; simp)
  apply (cases "ocr_section r"; simp)
  apply (cases "summary r"; simp)
  done

lemma metadata_section_shape:
  assumes "metadata_section title r = Inr ms"
  shows "if truthy (dict_get r ''metadata'' PNone)
         then take 2 ms = [PStr ''DOCUMENT METADATA:'', PStr dashes] else ms = []"
  using assms
  by (cases "py_items (dict_get r ''metadata'' PNone)")
     (auto simp add: metadata_section_def getitem_truthy split: if_splits)

lemma structure_section_shape:
  assumes "structure_section r = Inr ss"
  shows "if truthy (dict_get r ''structure'' PNone)
         then take 2 ss = [PStr ''DOCUMENT STRUCTURE:'', PStr dashes] else ss = []"
  using assms
  by (auto simp add: structure_section_def getitem_truthy ebind_eq_Inr
           split: if_splits pyval.splits)

lemma images_section_shape:
  assumes "images_section r = Inr im"
  shows "if truthy (dict_get r ''images'' PNone)
         then take 2 im = [PStr ''EXTRACTED IMAGES:'', PStr dashes] else im = []"
  using assms
  by (auto simp add: images_section_def getitem_truthy ebind_eq_Inr split: if_splits)

lemma tables_section_shape:
  assumes "tables_section r = Inr ts"
  shows "if truthy (dict_get r ''tables'' PNone)
         then take 2 ts = [PStr ''EXTRACTED TABLES:'', PStr dashes] else ts = []"
  using assms
  by (auto simp add: tables_section_def getitem_truthy ebind_eq_Inr split: if_splits)

lemma text_section_shape:
  assumes "text_section r = Inr xs"
  shows "if truthy (dict_get r ''text_content'' PNone)
         then xs = [PStr ''EXTRACTED TEXT CONTENT:'', PStr dashes, dict_get r ''text_content'' PNone,
                    PStr '''']
         else xs = []"
  using assms
  by (auto simp add: text_section_def getitem_truthy split: if_splits)

lemma no_key_error_simps [simp]:
  "no_key_error (Inr x)"
  "no_key_error (Inl e) \<longleftrightarrow> exn_class e \<noteq> KeyError"
  by (simp_all add: no_key_error_def)

lemma no_key_error_ebind:
  assumes "no_key_error m" and "\<And>x. m = Inr x \<Longrightarrow> no_key_error (f x)"
  shows "no_key_error (ebind m f)"
  using assms by (cases m) simp_all

lemma no_key_error_py_items: "no_key_error (py_items v)"
  by (cases v) (simp_all add: py_items_def no_attribute_def)

lemma no_key_error_py_iter: "no_key_error (py_iter v)"
  by (cases v) (simp_all add: py_iter_def)

lemma no_key_error_py_len: "no_key_error (py_len v)"
  by (cases v) (simp_all add: py_len_def)

lemma no_key_error_strings_of: "no_key_error (strings_of i vs)"
  by (induction i vs rule: strings_of.induct) (simp_all add: no_key_error_ebind)

lemma no_key_error_py_join: "no_key_error (py_join sep vs)"
  by (simp add: py_join_def no_key_error_ebind no_key_error_strings_of)

lemma no_key_error_enumerate_blocks:
  assumes "\<And>i x. no_key_error (f i x)"
  shows "no_key_error (enumerate_blocks f i xs)"
proof (induction xs arbitrary: i)
  case Nil
  show ?case by simp
next
  case (Cons x xs)
  show ?case
    by (simp add: no_key_error_ebind assms Cons.IH)
qed

lemma no_key_error_image_block: "no_key_error (image_block i v)"
  by (cases v) (simp_all add: image_block_def no_attribute_def getitem_truthy)

lemma no_key_error_content_lines: "no_key_error (content_lines d)"
  by (simp add: content_lines_def getitem_has_key [where dflt = PNone])

lemma no_key_error_table_block: "no_key_error (table_block i v)"
  by (cases v)
     (simp_all add: table_block_def no_attribute_def no_key_error_ebind no_key_error_content_lines)

lemma no_key_error_metadata_section: "no_key_error (metadata_section title r)"
  by (simp add: metadata_section_def getitem_truthy no_key_error_ebind no_key_error_py_items)

lemma no_key_error_headings_lines: "no_key_error (headings_lines d)"
  by (simp add: headings_lines_def getitem_has_key [where dflt = PNone] no_key_error_ebind
        no_key_error_py_iter)

lemma no_key_error_structure_section: "no_key_error (structure_section r)"
  by (cases "dict_get r ''structure'' PNone")
     (simp_all add: structure_section_def getitem_truthy no_attribute_def no_key_error_ebind
        no_key_error_headings_lines)

lemma no_key_error_images_section: "no_key_error (images_section r)"
  by (simp add: images_section_def getitem_truthy no_key_error_ebind no_key_error_py_iter
        no_key_error_enumerate_blocks no_key_error_image_block)

lemma no_key_error_tables_section: "no_key_error (tables_section r)"
  by (simp add: tables_section_def getitem_truthy no_key_error_ebind no_key_error_py_iter
        no_key_error_enumerate_blocks no_key_error_table_block)

lemma no_key_error_text_section: "no_key_error (text_section r)"
  by (simp add: text_section_def getitem_truthy)

lemma no_key_error_ocr_section: "no_key_error (ocr_section r)"
  by (simp add: ocr_section_cases)

lemma no_key_error_summary: "no_key_error (summary r)"
  by (simp add: summary_def no_key_error_ebind no_key_error_py_len)

lemma no_key_error_output_lines:
  assumes "has_key r ''filename''" and "has_key r ''processed_at''"
  shows "no_key_error (output_lines title r)"
  using assms
  by (simp add: output_lines_def banner_def getitem_has_key [where dflt = PNone]
        no_key_error_ebind no_key_error_metadata_section no_key_error_structure_section
        no_key_error_images_section no_key_error_tables_section no_key_error_text_section
        no_key_error_ocr_section no_key_error_summary)

lemma no_key_error_generate_output_text:
  assumes "has_key r ''filename''" and "has_key r ''processed_at''"
  shows "no_key_error (generate_output_text title r)"
  by (simp add: generate_output_text_def no_key_error_ebind no_key_error_output_lines [OF assms]
        no_key_error_py_join)

lemma strings_of_eq_Inr: "strings_of i vs = Inr ss \<longleftrightarrow> vs = map PStr ss"
proof (induction vs arbitrary: i ss)
  case Nil
  show ?case by auto
next
  case (Cons v vs)
  show ?case
  proof (cases v)
    case (PStr s)
    show ?thesis
      by (cases ss) (auto simp add: PStr ebind_eq_Inr Cons.IH)
  qed (cases ss; simp)+
qed

lemma join_Cons_nonempty: "ys \<noteq> [] \<Longrightarrow> join sep (x # ys) = x @ sep @ join sep ys"
  by (cases ys) simp_all

lemma join_snoc: "join sep (xs @ [y]) = concat (map (\<lambda>x. x @ sep) xs) @ y"
  by (induction xs) (simp_all add: join_Cons_nonempty)

lemma py_join_eq_Inr:
  "py_join sep vs = Inr text \<longleftrightarrow> (\<exists>ss. vs = map PStr ss \<and> text = join sep ss)"
  by (auto simp add: py_join_def ebind_eq_Inr strings_of_eq_Inr)

lemma map_PStr_eq_iff [simp]: "map PStr xs = map PStr ys \<longleftrightarrow> xs = ys"
  by (simp add: inj_map_eq_map inj_on_def)

lemma summary_strings:
  assumes "summary r = Inr (map PStr sm)"
  shows "length sm = 6 \<and> take 2 sm = [''PROCESSING SUMMARY:'', dashes]"
proof -
  from assms obtain a b c d where
    "map PStr sm = map PStr [''PROCESSING SUMMARY:'', dashes, a, b, c, d]"
    by (auto simp add: summary_def ebind_eq_Inr)
  then have "sm = [''PROCESSING SUMMARY:'', dashes, a, b, c, d]"
    by (simp only: map_PStr_eq_iff)
  then show ?thesis by simp
qed

lemma banner_strings:
  assumes "banner r = Inr (map PStr hs)"
  shows "hs = [rule80,
               ''PDF PROCESSING RESULTS: '' @ py_str (dict_get r ''filename'' PNone),
               ''Processed at: '' @ py_str (dict_get r ''processed_at'' PNone),
               rule80,
               '''']"
proof -
  from assms have
    "map PStr hs = map PStr [rule80,
               ''PDF PROCESSING RESULTS: '' @ py_str (dict_get r ''filename'' PNone),
               ''Processed at: '' @ py_str (dict_get r ''processed_at'' PNone),
               rule80,
               '''']"
    by (auto simp add: banner_def ebind_eq_Inr getitem_def dict_get_def split: option.splits)
  then show ?thesis
    by (simp only: map_PStr_eq_iff)
qed

lemma map_eq_append_split:
  assumes "map f xs = a @ b"
  obtains a' b' where "xs = a' @ b'" "a = map f a'" "b = map f b'"
  using assms by (auto simp add: map_eq_append_conv)

lemma report_structure:
  assumes "\<not> has_key r ''error''" and "generate_output_text title r = Inr report"
  shows "\<exists>hs ms ss im ts xs os sm.
           output_lines title r = Inr (map PStr (hs @ ms @ ss @ im @ ts @ xs @ os @ sm)) \<and>
           banner r = Inr (map PStr hs) \<and>
           metadata_section title r = Inr (map PStr ms) \<and>
           structure_section r = Inr (map PStr ss) \<and>
           images_section r = Inr (map PStr im) \<and>
           tables_section r = Inr (map PStr ts) \<and>
           text_section r = Inr (map PStr xs) \<and>
           ocr_section r = Inr (map PStr os) \<and>
           summary r = Inr (map PStr sm) \<and>
           report = lines_text (hs @ ms @ ss @ im @ ts @ xs @ os @ butlast sm) @ last sm"
proof -
  from assms(2) obtain ls where ol: "output_lines title r = Inr ls"
    and pj: "py_join [CHR 0x0A] ls = Inr report"
    by (auto simp add: generate_output_text_def ebind_eq_Inr)
  from pj obtain strs where strs: "ls = map PStr strs" and rep: "report = join [CHR 0x0A] strs"
    by (auto simp add: py_join_eq_Inr)
  from output_lines_sections [OF assms(1) ol]
  obtain head msv ssv imv tsv xsv osv smv where
    sec: "banner r = Inr head" "metadata_section title r = Inr msv"
      "structure_section r = Inr ssv" "images_section r = Inr imv"
      "tables_section r = Inr tsv" "text_section r = Inr xsv"
      "ocr_section r = Inr osv" "summary r = Inr smv"
    and ls: "ls = head @ msv @ ssv @ imv @ tsv @ xsv @ osv @ smv"
    by blast
  from strs ls have "map PStr strs = head @ (msv @ ssv @ imv @ tsv @ xsv @ osv @ smv)"
    by simp
  then obtain hs r1 where 1: "strs = hs @ r1" "head = map PStr hs"
    "msv @ (ssv @ imv @ tsv @ xsv @ osv @ smv) = map PStr r1"
    by (rule map_eq_append_split) simp
  from 1(3) [symmetric] obtain ms r2 where 2: "r1 = ms @ r2" "msv = map PStr ms"
    "ssv @ (imv @ tsv @ xsv @ osv @ smv) = map PStr r2"
    by (rule map_eq_append_split)
  from 2(3) [symmetric] obtain ss r3 where 3: "r2 = ss @ r3" "ssv = map PStr ss"
    "imv @ (tsv @ xsv @ osv @ smv) = map PStr r3"
    by (rule map_eq_append_split)
  from 3(3) [symmetric] obtain im r4 where 4: "r3 = im @ r4" "imv = map PStr im"
    "tsv @ (xsv @ osv @ smv) = map PStr r4"
    by (rule map_eq_append_split)
  from 4(3) [symmetric] obtain ts r5 where 5: "r4 = ts @ r5" "tsv = map PStr ts"
    "xsv @ (osv @ smv) = map PStr r5"
    by (rule map_eq_append_split)
  from 5(3) [symmetric] obtain xs r6 where 6: "r5 = xs @ r6" "xsv = map PStr xs"
    "osv @ smv = map PStr r6"
    by (rule map_eq_append_split)
  from 6(3) [symmetric] obtain os sm where 7: "r6 = os @ sm" "osv = map PStr os"
    "smv = map PStr sm"
    by (rule map_eq_append_split)
  have sm: "summary r = Inr (map PStr sm)"
    using sec(8) 7(3) by simp
  then have "length sm = 6"
    using summary_strings by blast
  then have "sm \<noteq> []"
    by auto
  then have split: "sm = butlast sm @ [last sm]"
    by simp
  have all: "strs = hs @ ms @ ss @ im @ ts @ xs @ os @ sm"
    using 1(1) 2(1) 3(1) 4(1) 5(1) 6(1) 7(1) by simp
  have lines: "output_lines title r = Inr (map PStr (hs @ ms @ ss @ im @ ts @ xs @ os @ sm))"
    using ol strs all by simp
  have "strs = (hs @ ms @ ss @ im @ ts @ xs @ os @ butlast sm) @ [last sm]"
    using all split by simp
  then have "report = lines_text (hs @ ms @ ss @ im @ ts @ xs @ os @ butlast sm) @ last sm"
    using rep by (simp only: join_snoc)
  then show ?thesis
    using lines sec 1(2) 2(2) 3(2) 4(2) 5(2) 6(2) 7(2) sm by blast
qed

lemma enumerate_blocks_nth:
  assumes "enumerate_blocks f k xs = Inr bs" and "i < length xs"
  shows "\<exists>b before after. f (k + i) (xs ! i) = Inr b \<and> bs = before @ b @ after"
  using assms
proof (induction xs arbitrary: k i bs)
  case Nil
  then show ?case by simp
next
  case (Cons x xs)
  from Cons.prems(1) obtain b0 bs0 where
    b0: "f k x = Inr b0" and bs0: "enumerate_blocks f (Suc k) xs = Inr bs0" and bs: "bs = b0 @ bs0"
    by (auto simp add: ebind_eq_Inr)
  show ?case
  proof (cases i)
    case 0
    have "bs = [] @ b0 @ bs0"
      using bs by simp
    moreover have "f (k + i) ((x # xs) ! i) = Inr b0"
      using 0 b0 by simp
    ultimately show ?thesis
      by blast
  next
    case (Suc j)
    then have "j < length xs"
      using Cons.prems(2) by simp
    from Cons.IH [OF bs0 this]
    obtain b before after where b: "f (Suc k + j) (xs ! j) = Inr b" and "bs0 = before @ b @ after"
      by blast
    then have "bs = (b0 @ before) @ b @ after"
      using bs by simp
    moreover have "f (k + i) ((x # xs) ! i) = Inr b"
      using Suc b by simp
    ultimately show ?thesis
      by blast
  qed
qed

lemma table_block_content:
  assumes "map_of t ''content'' = Some (PStr c)"
  shows "table_block i (PDict t) =
           Inr (map PStr
             [''Table '' @ py_str (PInt (int i)) @ '':'',
              ''  Page: '' @ py_str (dict_get t ''page'' (PStr ''Unknown'')),
              ''  Dimensions: '' @ py_str (dict_get t ''shape'' (PStr ''Unknown'')),
              ''  Accuracy: '' @ py_str (dict_get t ''accuracy'' (PStr ''Unknown'')) @ ''%'',
              ''  Content Summary:'',
              ''    '' @ (if 200 < length c then take 200 c @ ''...'' else c)])"
  using assms
  by (simp add: table_block_def content_lines_def has_key_def getitem_def preview_def)

lemma render_error_aggregate:
  assumes "map_of r ''filename'' = Some (PStr fn)"
    and "map_of r ''processed_at'' = Some (PStr ts)"
    and "map_of r ''error'' = Some (PStr msg)"
  shows "generate_output_text title r =
           Inr (lines_text
                  [rule80, ''PDF PROCESSING RESULTS: '' @ fn, ''Processed at: '' @ ts, rule80, '''']
                @ ''ERROR: '' @ msg)"
  using assms
  by (simp add: generate_output_text_def output_lines_def banner_def getitem_def has_key_def
        py_join_def py_str_def)

lemma one_decimal_mb_rounds_half_even:
  "one_decimal_mb 62914560 = ''60.0''"
  "one_decimal_mb (60 * 1048576 + 262144) = ''60.2''"
  "one_decimal_mb (60 * 1048576 + 262145) = ''60.3''"
  by (simp_all add: one_decimal_mb_def dec.simps char_of_eq_iff)

lemmas world_defs = sample_world_def empty_world_def no_magic_world_def broken_tables_world_def
  missing_file_world_def

lemmas render_defs = output_lines_def banner_def metadata_section_def structure_section_def
  images_section_def tables_section_def text_section_def ocr_section_def summary_def
  headings_lines_def getitem_def dict_get_def has_key_def py_len_def py_str_def py_items_def
  py_iter_def dec.simps char_of_eq_iff

lemma process_pdf_all_steps:
  assumes "validation_passes W p"
    and "\<forall>m \<in> set (progress_messages fn). print_out W m = Inr ()"
    and "extract_text_and_structure W p = Inr text_data"
    and "extract_images W p = Inr images_data"
    and "extract_tables W p = Inr tables_data"
    and "extract_metadata W p = Inr metadata"
    and "perform_ocr W p = Inr ocr_text"
  shows "process_pdf W p fn =
           ([(''filename'', PStr fn),
             (''processed_at'', PStr (now_start W)),
             (''text_content'', dict_get text_data ''text'' (PStr '''')),
             (''structure'', dict_get text_data ''structure'' (PDict [])),
             (''images'', PList images_data),
             (''tables'', PList tables_data),
             (''metadata'', PDict metadata),
             (''ocr_text'', PStr ocr_text)],
            [Print (''Processing '' @ fn @ ''...''), ValidatePdf p,
             Print ''Extracting text and structure...'', ExtractTextAndStructure p,
             Print ''Extracting images...'', ExtractImages p,
             Print ''Extracting tables...'', ExtractTables p,
             Print ''Extracting metadata...'', ExtractMetadata p,
             Print ''Performing OCR...'', PerformOcr p])"
proof -
  have first: "print_out W (''Processing '' @ fn @ ''...'') = Inr ()"
    and rest: "print_out W ''Extracting text and structure...'' = Inr ()"
      "print_out W ''Extracting images...'' = Inr ()"
      "print_out W ''Extracting tables...'' = Inr ()"
      "print_out W ''Extracting metadata...'' = Inr ()"
      "print_out W ''Performing OCR...'' = Inr ()"
    using assms(2) by (simp_all add: progress_messages_def)
  show ?thesis
    unfolding process_pdf_def process_body_valid [OF assms(1) first]
    by (simp add: rest assms(3-) run_simps)
qed

lemma sample_prints: "\<forall>m \<in> set (progress_messages fn). print_out sample_world m = Inr ()"
  by (simp add: sample_world_def)

lemma empty_prints: "\<forall>m \<in> set (progress_messages fn). print_out empty_world m = Inr ()"
  by (simp add: world_defs)

lemma empty_passes: "validation_passes empty_world ''a.pdf''"
  by (simp add: validation_passes_def validate_unfold world_defs)

lemma empty_results:
  "fst (process_pdf empty_world ''a.pdf'' ''a.pdf'') =
     [(''filename'', PStr ''a.pdf''),
      (''processed_at'', PStr ''2024-05-01 12:00:00''),
      (''text_content'', PStr ''''),
      (''structure'', PDict []),
      (''images'', PList []),
      (''tables'', PList []),
      (''metadata'', PDict []),
      (''ocr_text'', PStr '''')]"
proof -
  have "process_pdf empty_world ''a.pdf'' ''a.pdf'' =
           ([(''filename'', PStr ''a.pdf''),
             (''processed_at'', PStr (now_start empty_world)),
             (''text_content'',
              dict_get [(''text'', PStr ''''), (''structure'', PDict [])] ''text'' (PStr '''')),
             (''structure'',
              dict_get [(''text'', PStr ''''), (''structure'', PDict [])] ''structure'' (PDict [])),
             (''images'', PList []),
             (''tables'', PList []),
             (''metadata'', PDict []),
             (''ocr_text'', PStr '''')],
            [Print (''Processing '' @ ''a.pdf'' @ ''...''), ValidatePdf ''a.pdf'',
             Print ''Extracting text and structure...'', ExtractTextAndStructure ''a.pdf'',
             Print ''Extracting images...'', ExtractImages ''a.pdf'',
             Print ''Extracting tables...'', ExtractTables ''a.pdf'',
             Print ''Extracting metadata...'', ExtractMetadata ''a.pdf'',
             Print ''Performing OCR...'', PerformOcr ''a.pdf''])"
    by (rule process_pdf_all_steps [OF empty_passes empty_prints]) (simp_all add: world_defs)
  then show ?thesis
    by (simp add: dict_get_def world_defs)
qed

lemmas title_defs = ascii_title_def ascii_upper_def ascii_lower_def ascii_alpha_def

lemmas report_defs = generate_output_text_def py_join_def render_defs enumerate_blocks.simps
  image_block_def table_block_def content_lines_def preview_def

lemma sample_passes: "validation_passes sample_world ''a.pdf''"
  by (simp add: validation_passes_def validate_unfold world_defs)

lemma broken_tables_passes: "validation_passes broken_tables_world ''a.pdf''"
  by (simp add: validation_passes_def validate_unfold world_defs)

lemma ascii_stdout_passes: "validation_passes ascii_stdout_world accented_name"
  by (simp add: validation_passes_def validate_unfold world_defs ascii_stdout_world_def)

lemma accented_name_print:
  "ascii_stdout (''Processing '' @ accented_name @ ''...'') = Inl encode_error"
  by (simp add: ascii_stdout_def accented_name_def encode_error_def hexdigit_def dec.simps
        char_of_eq_iff)

lemma sample_no_error: "\<not> has_key sample_results ''error''"
  by (simp add: sample_results_def has_key_def)

lemma sample_rendering: "generate_output_text ascii_title sample_results = Inr sample_report"
  by (simp add: sample_results_def sample_report_def report_defs title_defs)

lemma table_no_error: "\<not> has_key table_results ''error''"
  by (simp add: table_results_def has_key_def)

lemma table_rendering: "generate_output_text ascii_title table_results = Inr table_report"
  by (simp add: table_results_def table_report_def wide_table_def report_defs)

lemma take2_strings:
  "take 2 (map PStr ms) = [PStr a, PStr b] \<longleftrightarrow> take 2 ms = [a, b]"
proof -
  have "take 2 (map PStr ms) = map PStr (take 2 ms)"
    by (simp add: take_map)
  moreover have "[PStr a, PStr b] = map PStr [a, b]"
    by simp
  ultimately show ?thesis
    by (simp only: map_PStr_eq_iff)
qed

lemma section_shape_strings:
  assumes "if c then take 2 (map PStr ms) = [PStr a, PStr b] else map PStr ms = []"
  shows "if c then take 2 ms = [a, b] else ms = []"
  using assms by (simp add: take2_strings split: if_splits)

lemma ocr_section_strings:
  assumes "ocr_section r = Inr (map PStr os)"
  shows "if truthy (dict_get r ''ocr_text'' PNone) \<and>
            \<not> py_eq (dict_get r ''ocr_text'' PNone) (dict_get r ''text_content'' (PStr ''''))
         then \<exists>s. dict_get r ''ocr_text'' PNone = PStr s \<and>
                  os = [''OCR EXTRACTED TEXT:'', dashes, s, '''']
         else os = []"
proof (cases "truthy (dict_get r ''ocr_text'' PNone) \<and>
            \<not> py_eq (dict_get r ''ocr_text'' PNone) (dict_get r ''text_content'' (PStr ''''))")
  case True
  with assms have "map PStr os =
      [PStr ''OCR EXTRACTED TEXT:'', PStr dashes, dict_get r ''ocr_text'' PNone, PStr '''']"
    by (simp add: ocr_section_cases)
  then obtain s where "dict_get r ''ocr_text'' PNone = PStr s"
    and "os = [''OCR EXTRACTED TEXT:'', dashes, s, '''']"
    by (auto simp add: map_eq_Cons_conv dest: sym)
  with True show ?thesis
    by simp
next
  case False
  with assms have "os = []"
    by (simp add: ocr_section_cases)
  with False show ?thesis
    by simp
qed

lemma tables_section_block:
  assumes "tables_section r = Inr (map PStr ts)"
    and "dict_get r ''tables'' PNone = PList tables"
    and "i < length tables"
    and "tables ! i = PDict t"
    and "map_of t ''content'' = Some (PStr c)"
  shows "\<exists>b0 b1.
           ts = [''EXTRACTED TABLES:'', dashes] @ b0 @
                [''Table '' @ py_str (PInt (int (Suc i))) @ '':'',
                 ''  Page: '' @ py_str (dict_get t ''page'' (PStr ''Unknown'')),
                 ''  Dimensions: '' @ py_str (dict_get t ''shape'' (PStr ''Unknown'')),
                 ''  Accuracy: '' @ py_str (dict_get t ''accuracy'' (PStr ''Unknown'')) @ ''%'',
                 ''  Content Summary:'',
                 ''    '' @ (if 200 < length c then take 200 c @ ''...'' else c)] @
                b1 @ ['''']"
proof -
  define block where "block =
                [''Table '' @ py_str (PInt (int (Suc i))) @ '':'',
                 ''  Page: '' @ py_str (dict_get t ''page'' (PStr ''Unknown'')),
                 ''  Dimensions: '' @ py_str (dict_get t ''shape'' (PStr ''Unknown'')),
                 ''  Accuracy: '' @ py_str (dict_get t ''accuracy'' (PStr ''Unknown'')) @ ''%'',
                 ''  Content Summary:'',
                 ''    '' @ (if 200 < length c then take 200 c @ ''...'' else c)]"
  have "tables \<noteq> []"
    using assms(3) by auto
  then have tr: "truthy (dict_get r ''tables'' PNone)"
    by (simp add: assms(2))
  have "ebind (enumerate_blocks table_block 1 tables)
          (\<lambda>bs. Inr ([PStr ''EXTRACTED TABLES:'', PStr dashes] @ bs @ [PStr ''''])) =
        Inr (map PStr ts)"
    using assms(1) tr by (simp add: tables_section_def getitem_truthy assms(2) py_iter_def)
  then obtain bs where eb: "enumerate_blocks table_block 1 tables = Inr bs"
    and ts: "map PStr ts = [PStr ''EXTRACTED TABLES:'', PStr dashes] @ bs @ [PStr '''']"
    by (auto simp add: ebind_eq_Inr)
  from enumerate_blocks_nth [OF eb assms(3)]
  obtain b before after where b: "table_block (1 + i) (tables ! i) = Inr b"
    and bs: "bs = before @ b @ after"
    by blast
  have "table_block (Suc i) (PDict t) = Inr (map PStr block)"
    unfolding block_def by (rule table_block_content [OF assms(5)])
  with b have "b = map PStr block"
    by (simp add: assms(4))
  with ts bs have "map PStr ts =
      map PStr [''EXTRACTED TABLES:'', dashes] @ (before @ (map PStr block @ (after @ [PStr ''''])))"
    by simp
  then obtain h r1 where 1: "ts = h @ r1" "map PStr [''EXTRACTED TABLES:'', dashes] = map PStr h"
    "before @ (map PStr block @ (after @ [PStr ''''])) = map PStr r1"
    by (rule map_eq_append_split)
  from 1(3) [symmetric] obtain b0 r2 where 2: "r1 = b0 @ r2"
    "map PStr block @ (after @ [PStr '''']) = map PStr r2"
    by (rule map_eq_append_split)
  from 2(2) [symmetric] obtain bl r3 where 3: "r2 = bl @ r3" "map PStr block = map PStr bl"
    "after @ [PStr ''''] = map PStr r3"
    by (rule map_eq_append_split)
  from 3(3) [symmetric] obtain b1 e where 4: "r3 = b1 @ e" "map PStr [''''] = map PStr e"
    by (rule map_eq_append_split) simp
  have "h = [''EXTRACTED TABLES:'', dashes]" "bl = block" "e = ['''']"
    using 1(2) 3(2) 4(2) by (simp_all only: map_PStr_eq_iff)
  then have "ts = [''EXTRACTED TABLES:'', dashes] @ b0 @ block @ b1 @ ['''']"
    using 1(1) 2(1) 3(1) 4(1) by simp
  then show ?thesis
    unfolding block_def by blast
qed

section \<open>The properties\<close>

text \<open>
  Claim C1. The body of \<open>process_pdf\<close> raises a fault \<open>e\<close> exactly when \<open>e\<close> is
  the first fault among its steps in the order of execution: the first progress message,
  and, when validation passes, each further progress message and each of the five
  extractors. Whenever the body raises \<open>e\<close>, the aggregate that \<open>process_pdf\<close> returns
  has the three fields \<open>filename\<close>, \<open>error\<close> and \<open>processed_at\<close> and no other:
  \<open>error\<close> is \<open>Processing failed: \<close> followed by the description of \<open>e\<close>, and no
  content field assigned before the fault is left in it.
\<close>

theorem fault_gives_error_only_aggregate:
  "(fst (process_body W p fn) = Inl e \<longleftrightarrow> first_fault (step_faults W p fn) = Some e) \<and>
   (fst (process_body W p fn) = Inl e \<longrightarrow>
      fst (process_pdf W p fn) =
        [(''filename'', PStr fn),
         (''error'', PStr (''Processing failed: '' @ descr e)),
         (''processed_at'', PStr (now_handler W))])"
proof (intro conjI impI)
  show "fst (process_body W p fn) = Inl e \<longleftrightarrow> first_fault (step_faults W p fn) = Some e"
    by (rule process_body_fault_iff)
next
  assume "fst (process_body W p fn) = Inl e"
  then show "fst (process_pdf W p fn) =
        [(''filename'', PStr fn),
         (''error'', PStr (''Processing failed: '' @ descr e)),
         (''processed_at'', PStr (now_handler W))]"
    by (cases "process_body W p fn") (simp add: process_pdf_def failure_results_def)
qed

text \<open>
  The table extractor of \<open>broken_tables_world\<close> raises after the text and the images
  were extracted and assigned; the aggregate keeps none of them.
\<close>

theorem fault_gives_error_only_aggregate_witness:
  "first_fault (step_faults broken_tables_world ''a.pdf'' ''a.pdf'') = Some (Exn OtherError ''boom'') \<and>
   fst (process_body broken_tables_world ''a.pdf'' ''a.pdf'') = Inl (Exn OtherError ''boom'') \<and>
   fst (process_pdf broken_tables_world ''a.pdf'' ''a.pdf'') =
     [(''filename'', PStr ''a.pdf''),
      (''error'', PStr ''Processing failed: boom''),
      (''processed_at'', PStr ''2024-05-01 12:00:03'')]"
proof -
  note inst = fault_gives_error_only_aggregate
    [of broken_tables_world "''a.pdf''" "''a.pdf''" "Exn OtherError ''boom''"]
  have f: "first_fault (step_faults broken_tables_world ''a.pdf'' ''a.pdf'') =
      Some (Exn OtherError ''boom'')"
    by (simp add: step_faults_def broken_tables_passes) (simp add: fault_def world_defs)
  from inst f
  have b: "fst (process_body broken_tables_world ''a.pdf'' ''a.pdf'') = Inl (Exn OtherError ''boom'')"
    by blast
  with inst have "fst (process_pdf broken_tables_world ''a.pdf'' ''a.pdf'') =
        [(''filename'', PStr ''a.pdf''),
         (''error'', PStr (''Processing failed: '' @ descr (Exn OtherError ''boom''))),
         (''processed_at'', PStr (now_handler broken_tables_world))]"
    by blast
  then show ?thesis
    using f b by (simp add: world_defs)
qed

text \<open>
  Claim C2 does not hold as stated: \<open>print(f"Processing {filename}...")\<close> at line 28
  stands inside the \<open>try\<close> and before the call of the validator. On a standard output
  that cannot encode the file name it raises, the validator is never called, and the
  file that validation would reject gets the aggregate of the fault handler: the error
  is not the message of the validator (\<open>File does not exist\<close>), and the content fields
  are absent instead of empty.
\<close>

theorem unprintable_name_hides_validation_error:
  "fst (validate_pdf missing_ascii_world accented_name) = Inr (invalid ''File does not exist'') \<and>
   \<not> validation_passes missing_ascii_world accented_name \<and>
   process_pdf missing_ascii_world accented_name accented_name =
     ([(''filename'', PStr accented_name),
       (''error'', PStr (''Processing failed: '' @ descr encode_error)),
       (''processed_at'', PStr ''2024-05-01 12:00:03'')],
      [Print (''Processing '' @ accented_name @ ''...'')])"
proof -
  have v: "fst (validate_pdf missing_ascii_world accented_name) =
      Inr (invalid ''File does not exist'')"
    by (simp add: validate_unfold world_defs missing_ascii_world_def)
  have p: "print_out missing_ascii_world (''Processing '' @ accented_name @ ''...'') =
      Inl encode_error"
    using accented_name_print by (simp add: world_defs missing_ascii_world_def)
  show ?thesis
    using v
    by (simp add: validation_passes_def process_pdf_def process_body_print_fault [OF p]
          failure_results_def)
       (simp add: world_defs missing_ascii_world_def)
qed

text \<open>
  Claim C2, amended. When validation fails, none of the five extractors is called. If
  moreover the progress message of line 28 is printed without a fault, \<open>process_pdf\<close>
  returns the initial aggregate, every content field at its empty default, with
  \<open>error\<close> set to the message of the validator, and the calls made are that
  \<open>print\<close> and the validator only.
\<close>

theorem invalid_input_runs_no_extractor:
  assumes "\<not> validation_passes W p"
  shows "(\<forall>c \<in> set (snd (process_pdf W p fn)). \<not> is_extractor_call c) \<and>
         (print_out W (''Processing '' @ fn @ ''...'') = Inr () \<longrightarrow>
            (\<exists>msg. fst (validate_pdf W p) = Inr (invalid msg) \<and>
               process_pdf W p fn =
                 ([(''filename'', PStr fn),
                   (''processed_at'', PStr (now_start W)),
                   (''text_content'', PStr ''''),
                   (''structure'', PDict []),
                   (''images'', PList []),
                   (''tables'', PList []),
                   (''metadata'', PDict []),
                   (''ocr_text'', PStr ''''),
                   (''error'', PStr msg)],
                  [Print (''Processing '' @ fn @ ''...''), ValidatePdf p])))"
proof (intro conjI impI)
  show "\<forall>c \<in> set (snd (process_pdf W p fn)). \<not> is_extractor_call c"
    using assms by (rule process_pdf_no_extractor)
next
  assume printed: "print_out W (''Processing '' @ fn @ ''...'') = Inr ()"
  from validation_fails [OF assms] obtain msg where "fst (validate_pdf W p) = Inr (invalid msg)"
    by blast
  then show "\<exists>msg. fst (validate_pdf W p) = Inr (invalid msg) \<and>
               process_pdf W p fn =
                 ([(''filename'', PStr fn),
                   (''processed_at'', PStr (now_start W)),
                   (''text_content'', PStr ''''),
                   (''structure'', PDict []),
                   (''images'', PList []),
                   (''tables'', PList []),
                   (''metadata'', PDict []),
                   (''ocr_text'', PStr ''''),
                   (''error'', PStr msg)],
                  [Print (''Processing '' @ fn @ ''...''), ValidatePdf p])"
    using process_pdf_invalid [OF printed] by blast
qed

text \<open>
  A path that does not exist, on a standard output that takes every text.
\<close>

theorem invalid_input_runs_no_extractor_witness:
  "\<not> validation_passes missing_file_world ''a.pdf'' \<and>
   print_out missing_file_world (''Processing '' @ ''a.pdf'' @ ''...'') = Inr () \<and>
   process_pdf missing_file_world ''a.pdf'' ''a.pdf'' =
     ([(''filename'', PStr ''a.pdf''),
       (''processed_at'', PStr ''2024-05-01 12:00:00''),
       (''text_content'', PStr ''''),
       (''structure'', PDict []),
       (''images'', PList []),
       (''tables'', PList []),
       (''metadata'', PDict []),
       (''ocr_text'', PStr ''''),
       (''error'', PStr ''File does not exist'')],
      [Print ''Processing a.pdf...'', ValidatePdf ''a.pdf'']) \<and>
   list_all (\<lambda>c. \<not> is_extractor_call c) (snd (process_pdf missing_file_world ''a.pdf'' ''a.pdf''))"
proof -
  have v: "fst (validate_pdf missing_file_world ''a.pdf'') = Inr (invalid ''File does not exist'')"
    by (simp add: validate_unfold world_defs)
  then have n: "\<not> validation_passes missing_file_world ''a.pdf''"
    by (simp add: validation_passes_def)
  have p: "print_out missing_file_world (''Processing '' @ ''a.pdf'' @ ''...'') = Inr ()"
    by (simp add: world_defs)
  note inst = invalid_input_runs_no_extractor [OF n, of "''a.pdf''"]
  from inst p obtain msg where
    m: "fst (validate_pdf missing_file_world ''a.pdf'') = Inr (invalid msg)"
    and r: "process_pdf missing_file_world ''a.pdf'' ''a.pdf'' =
                 ([(''filename'', PStr ''a.pdf''),
                   (''processed_at'', PStr (now_start missing_file_world)),
                   (''text_content'', PStr ''''),
                   (''structure'', PDict []),
                   (''images'', PList []),
                   (''tables'', PList []),
                   (''metadata'', PDict []),
                   (''ocr_text'', PStr ''''),
                   (''error'', PStr msg)],
                  [Print (''Processing '' @ ''a.pdf'' @ ''...''), ValidatePdf ''a.pdf''])"
    by blast
  from m v have "msg = ''File does not exist''"
    by simp
  moreover from inst
  have "list_all (\<lambda>c. \<not> is_extractor_call c) (snd (process_pdf missing_file_world ''a.pdf'' ''a.pdf''))"
    by (simp add: list_all_iff)
  ultimately show ?thesis
    using n p r by (simp add: world_defs)
qed

text \<open>
  Claim C3 does not hold as stated: a progress message that cannot be printed is a
  fault of the body too. For the valid document of \<open>ascii_stdout_world\<close>, whose
  extractors all return, the first \<open>print\<close> raises on the accented file name; neither
  the validator nor any extractor is called, and the fault aggregate is returned.
\<close>

theorem unprintable_name_runs_no_extractor:
  "validation_passes ascii_stdout_world accented_name \<and>
   first_fault
     [fault (extract_text_and_structure ascii_stdout_world accented_name),
      fault (extract_images ascii_stdout_world accented_name),
      fault (extract_tables ascii_stdout_world accented_name),
      fault (extract_metadata ascii_stdout_world accented_name),
      fault (perform_ocr ascii_stdout_world accented_name)] = None \<and>
   process_pdf ascii_stdout_world accented_name accented_name =
     ([(''filename'', PStr accented_name),
       (''error'', PStr (''Processing failed: '' @ descr encode_error)),
       (''processed_at'', PStr ''2024-05-01 12:00:03'')],
      [Print (''Processing '' @ accented_name @ ''...'')])"
proof -
  have p: "print_out ascii_stdout_world (''Processing '' @ accented_name @ ''...'') =
      Inl encode_error"
    using accented_name_print by (simp add: world_defs ascii_stdout_world_def)
  have f: "first_fault
     [fault (extract_text_and_structure ascii_stdout_world accented_name),
      fault (extract_images ascii_stdout_world accented_name),
      fault (extract_tables ascii_stdout_world accented_name),
      fault (extract_metadata ascii_stdout_world accented_name),
      fault (perform_ocr ascii_stdout_world accented_name)] = None"
    by (simp add: fault_def world_defs ascii_stdout_world_def)
  show ?thesis
    using ascii_stdout_passes f
    by (simp add: process_pdf_def process_body_print_fault [OF p] failure_results_def)
       (simp add: world_defs ascii_stdout_world_def)
qed

text \<open>
  Claim C3, amended. When validation passes, no extractor raises and each of the six
  progress messages is printed without a fault, the calls made are the validator and
  then the five extractors, each once, in the order text and structure, images, tables,
  metadata, OCR, each on the path that was validated and each after its progress
  message; each result is stored in its field of the aggregate. The results are
  arbitrary, so no extractor is skipped because of what another returned.
\<close>

theorem valid_input_runs_every_extractor_once:
  assumes "validation_passes W p"
    and "\<forall>m \<in> set (progress_messages fn). print_out W m = Inr ()"
    and "extract_text_and_structure W p = Inr text_data"
    and "extract_images W p = Inr images_data"
    and "extract_tables W p = Inr tables_data"
    and "extract_metadata W p = Inr metadata"
    and "perform_ocr W p = Inr ocr_text"
  shows "process_pdf W p fn =
           ([(''filename'', PStr fn),
             (''processed_at'', PStr (now_start W)),
             (''text_content'', dict_get text_data ''text'' (PStr '''')),
             (''structure'', dict_get text_data ''structure'' (PDict [])),
             (''images'', PList images_data),
             (''tables'', PList tables_data),
             (''metadata'', PDict metadata),
             (''ocr_text'', PStr ocr_text)],
            [Print (''Processing '' @ fn @ ''...''), ValidatePdf p,
             Print ''Extracting text and structure...'', ExtractTextAndStructure p,
             Print ''Extracting images...'', ExtractImages p,
             Print ''Extracting tables...'', ExtractTables p,
             Print ''Extracting metadata...'', ExtractMetadata p,
             Print ''Performing OCR...'', PerformOcr p]) \<and>
         filter is_extractor_call (snd (process_pdf W p fn)) =
           [ExtractTextAndStructure p, ExtractImages p, ExtractTables p, ExtractMetadata p,
            PerformOcr p]"
proof -
  have run: "process_pdf W p fn =
           ([(''filename'', PStr fn),
             (''processed_at'', PStr (now_start W)),
             (''text_content'', dict_get text_data ''text'' (PStr '''')),
             (''structure'', dict_get text_data ''structure'' (PDict [])),
             (''images'', PList images_data),
             (''tables'', PList tables_data),
             (''metadata'', PDict metadata),
             (''ocr_text'', PStr ocr_text)],
            [Print (''Processing '' @ fn @ ''...''), ValidatePdf p,
             Print ''Extracting text and structure...'', ExtractTextAndStructure p,
             Print ''Extracting images...'', ExtractImages p,
             Print ''Extracting tables...'', ExtractTables p,
             Print ''Extracting metadata...'', ExtractMetadata p,
             Print ''Performing OCR...'', PerformOcr p])"
    using assms by (rule process_pdf_all_steps)
  show ?thesis
    by (rule conjI, rule run) (simp add: run)
qed

text \<open>
  The document of \<open>sample_world\<close>.
\<close>

theorem valid_input_runs_every_extractor_once_witness:
  "validation_passes sample_world ''a.pdf'' \<and>
   list_all (\<lambda>m. print_out sample_world m = Inr ()) (progress_messages ''a.pdf'') \<and>
   process_pdf sample_world ''a.pdf'' ''a.pdf'' =
     (sample_results,
      [Print ''Processing a.pdf...'', ValidatePdf ''a.pdf'',
       Print ''Extracting text and structure...'', ExtractTextAndStructure ''a.pdf'',
       Print ''Extracting images...'', ExtractImages ''a.pdf'',
       Print ''Extracting tables...'', ExtractTables ''a.pdf'',
       Print ''Extracting metadata...'', ExtractMetadata ''a.pdf'',
       Print ''Performing OCR...'', PerformOcr ''a.pdf'']) \<and>
   filter is_extractor_call (snd (process_pdf sample_world ''a.pdf'' ''a.pdf'')) =
     [ExtractTextAndStructure ''a.pdf'', ExtractImages ''a.pdf'', ExtractTables ''a.pdf'',
      ExtractMetadata ''a.pdf'', PerformOcr ''a.pdf'']"
proof -
  have "process_pdf sample_world ''a.pdf'' ''a.pdf'' =
           ([(''filename'', PStr ''a.pdf''),
             (''processed_at'', PStr (now_start sample_world)),
             (''text_content'',
              dict_get [(''text'', PStr ''Hello''), (''structure'', PDict [(''total_pages'', PInt 1)])]
                ''text'' (PStr '''')),
             (''structure'',
              dict_get [(''text'', PStr ''Hello''), (''structure'', PDict [(''total_pages'', PInt 1)])]
                ''structure'' (PDict [])),
             (''images'', PList []),
             (''tables'', PList []),
             (''metadata'', PDict [(''title'', PStr ''Report'')]),
             (''ocr_text'', PStr ''Hello'')],
            [Print (''Processing '' @ ''a.pdf'' @ ''...''), ValidatePdf ''a.pdf'',
             Print ''Extracting text and structure...'', ExtractTextAndStructure ''a.pdf'',
             Print ''Extracting images...'', ExtractImages ''a.pdf'',
             Print ''Extracting tables...'', ExtractTables ''a.pdf'',
             Print ''Extracting metadata...'', ExtractMetadata ''a.pdf'',
             Print ''Performing OCR...'', PerformOcr ''a.pdf'']) \<and>
         filter is_extractor_call (snd (process_pdf sample_world ''a.pdf'' ''a.pdf'')) =
           [ExtractTextAndStructure ''a.pdf'', ExtractImages ''a.pdf'', ExtractTables ''a.pdf'',
            ExtractMetadata ''a.pdf'', PerformOcr ''a.pdf'']"
    by (rule valid_input_runs_every_extractor_once [OF sample_passes sample_prints])
       (simp_all add: world_defs)
  moreover have "list_all (\<lambda>m. print_out sample_world m = Inr ()) (progress_messages ''a.pdf'')"
    by (simp add: progress_messages_def world_defs)
  ultimately show ?thesis
    using sample_passes by (simp add: sample_results_def dict_get_def world_defs)
qed

text \<open>
  Claim C4. The calls that \<open>validate_pdf\<close> makes are an initial part of the fixed
  sequence \<open>all_calls\<close>: existence, size, content sniffing, opening, page count, text
  of the first page. If some check fails, the outcome is invalid with the error of the
  first check of \<open>check_order\<close> that fails, and no call that belongs to a later check was
  made; if none fails, the outcome is valid and all the calls were made. The check of
  the content type passes by sniffing, or, when sniffing raises, by the extension
  \<open>.pdf\<close> in any case (\<open>pdf_extension\<close>, which is what the source computes by
  lemma \<open>endswith_lower_pdf\<close>).
\<close>

theorem validate_pdf_checks_in_order:
  "prefix (snd (validate_pdf W p)) all_calls \<and>
   (case find (\<lambda>c. \<not> passes W p c) check_order of
      None \<Rightarrow>
        (\<exists>d. fst (validate_pdf W p) = Inr d \<and> map_of d ''valid'' = Some (PBool True)) \<and>
        snd (validate_pdf W p) = all_calls
    | Some c \<Rightarrow>
        fst (validate_pdf W p) = Inr (invalid (failure_message W p c)) \<and>
        (\<forall>k \<in> set (snd (validate_pdf W p)). rank (stage k) \<le> rank c))"
  apply (rule conjI)
   apply (rule validate_pdf_prefix)
  apply (cases "os_path_exists W p"; simp add: validate_unfold)
  apply (cases "os_path_getsize W p"; simp add: validate_unfold)
  apply (cases "magic_from_file W p"; simp add: validate_unfold)
   apply (cases "open_rb W p"; simp add: validate_unfold)
   apply (cases "pdf_reader W p"; simp add: validate_unfold)
   apply (cases "len_pages W p"; simp add: validate_unfold)
   apply (cases "extract_first_page W p"; simp add: validate_unfold)
  apply (cases "open_rb W p"; simp add: validate_unfold)
  apply (cases "pdf_reader W p"; simp add: validate_unfold)
  apply (cases "len_pages W p"; simp add: validate_unfold)
  apply (cases "extract_first_page W p"; simp add: validate_unfold)
  done
text \<open>
  Sniffing is unavailable and the file is \<open>notes.txt\<close>: the content type is the first
  check that fails, and the file is never opened.
\<close>

theorem validate_pdf_checks_in_order_witness:
  "find (\<lambda>c. \<not> passes no_magic_world ''notes.txt'' c) check_order = Some ContentType \<and>
   fst (validate_pdf no_magic_world ''notes.txt'') = Inr (invalid ''File does not have .pdf extension'') \<and>
   snd (validate_pdf no_magic_world ''notes.txt'') = [PathExists, GetSize, MagicFromFile] \<and>
   list_all (\<lambda>k. rank (stage k) \<le> rank ContentType) (snd (validate_pdf no_magic_world ''notes.txt'')) \<and>
   prefix (snd (validate_pdf no_magic_world ''notes.txt'')) all_calls"
proof -
  have f: "find (\<lambda>c. \<not> passes no_magic_world ''notes.txt'' c) check_order = Some ContentType"
    by (simp add: check_order_def world_defs pdf_extension_def)
  have t: "snd (validate_pdf no_magic_world ''notes.txt'') = [PathExists, GetSize, MagicFromFile]"
    by (simp add: validate_unfold world_defs pdf_extension_def)
  from validate_pdf_checks_in_order [of no_magic_world "''notes.txt''"]
  have "fst (validate_pdf no_magic_world ''notes.txt'') =
          Inr (invalid (failure_message no_magic_world ''notes.txt'' ContentType))"
    and "\<forall>k \<in> set (snd (validate_pdf no_magic_world ''notes.txt'')). rank (stage k) \<le> rank ContentType"
    and "prefix (snd (validate_pdf no_magic_world ''notes.txt'')) all_calls"
    by (simp_all add: f)
  then show ?thesis
    using f t by (simp add: world_defs list_all_iff)
qed
text \<open>
  Claim C5 does not hold as stated: the metadata and structure sections are guarded by
  \<open>if results.get('metadata')\<close> and \<open>if results.get('structure')\<close>, and an empty
  mapping is false. For a valid document whose metadata and structure are empty the
  report is the banner followed by the summary, with neither header.
\<close>

theorem empty_mappings_render_no_header:
  "\<not> has_key (fst (process_pdf empty_world ''a.pdf'' ''a.pdf'')) ''error'' \<and>
   dict_get (fst (process_pdf empty_world ''a.pdf'' ''a.pdf'')) ''metadata'' PNone = PDict [] \<and>
   dict_get (fst (process_pdf empty_world ''a.pdf'' ''a.pdf'')) ''structure'' PNone = PDict [] \<and>
   output_lines ascii_title (fst (process_pdf empty_world ''a.pdf'' ''a.pdf'')) =
     Inr [PStr rule80,
          PStr ''PDF PROCESSING RESULTS: a.pdf'',
          PStr ''Processed at: 2024-05-01 12:00:00'',
          PStr rule80,
          PStr '''',
          PStr ''PROCESSING SUMMARY:'',
          PStr dashes,
          PStr ''Text Length: 0 characters'',
          PStr ''Images Found: 0'',
          PStr ''Tables Found: 0'',
          PStr ''OCR Length: 0 characters''] \<and>
   generate_output_text ascii_title (fst (process_pdf empty_world ''a.pdf'' ''a.pdf'')) =
     Inr (lines_text
            [rule80,
             ''PDF PROCESSING RESULTS: a.pdf'',
             ''Processed at: 2024-05-01 12:00:00'',
             rule80,
             '''',
             ''PROCESSING SUMMARY:'',
             dashes,
             ''Text Length: 0 characters'',
             ''Images Found: 0'',
             ''Tables Found: 0'']
          @ ''OCR Length: 0 characters'')"
  unfolding empty_results
  by (simp add: report_defs)

text \<open>
  Claim C5, amended. The text that \<open>generate_output_text\<close> returns for an aggregate
  without \<open>error\<close> begins with the five lines of the banner, followed by the lines of
  the metadata, structure, images, tables and text sections in this order, each line
  ended by a newline. Each of these five sections begins with its header and a rule
  exactly when its field is present and true (a non-empty mapping, sequence or string);
  otherwise the section contributes no line at all. The metadata and structure headers
  are conditional like the others.
\<close>

theorem every_section_is_conditional:
  assumes "\<not> has_key r ''error''" and "generate_output_text title r = Inr report"
  shows "\<exists>hs ms ss im ts xs rest.
           report = lines_text hs @ lines_text ms @ lines_text ss @ lines_text im @
                    lines_text ts @ lines_text xs @ rest \<and>
           hs = [rule80,
                 ''PDF PROCESSING RESULTS: '' @ py_str (dict_get r ''filename'' PNone),
                 ''Processed at: '' @ py_str (dict_get r ''processed_at'' PNone),
                 rule80,
                 ''''] \<and>
           metadata_section title r = Inr (map PStr ms) \<and>
           structure_section r = Inr (map PStr ss) \<and>
           images_section r = Inr (map PStr im) \<and>
           tables_section r = Inr (map PStr ts) \<and>
           text_section r = Inr (map PStr xs) \<and>
           (if truthy (dict_get r ''metadata'' PNone)
            then take 2 ms = [''DOCUMENT METADATA:'', dashes] else ms = []) \<and>
           (if truthy (dict_get r ''structure'' PNone)
            then take 2 ss = [''DOCUMENT STRUCTURE:'', dashes] else ss = []) \<and>
           (if truthy (dict_get r ''images'' PNone)
            then take 2 im = [''EXTRACTED IMAGES:'', dashes] else im = []) \<and>
           (if truthy (dict_get r ''tables'' PNone)
            then take 2 ts = [''EXTRACTED TABLES:'', dashes] else ts = []) \<and>
           (if truthy (dict_get r ''text_content'' PNone)
            then take 2 xs = [''EXTRACTED TEXT CONTENT:'', dashes] else xs = [])"
proof -
  from report_structure [OF assms]
  obtain hs ms ss im ts xs os sm where
    parts: "banner r = Inr (map PStr hs)" "metadata_section title r = Inr (map PStr ms)"
      "structure_section r = Inr (map PStr ss)" "images_section r = Inr (map PStr im)"
      "tables_section r = Inr (map PStr ts)" "text_section r = Inr (map PStr xs)"
    and rep: "report = lines_text (hs @ ms @ ss @ im @ ts @ xs @ os @ butlast sm) @ last sm"
    by blast
  have whole: "report = lines_text hs @ lines_text ms @ lines_text ss @ lines_text im @
                    lines_text ts @ lines_text xs @ (lines_text (os @ butlast sm) @ last sm)"
    using rep by simp
  have hs: "hs = [rule80,
                 ''PDF PROCESSING RESULTS: '' @ py_str (dict_get r ''filename'' PNone),
                 ''Processed at: '' @ py_str (dict_get r ''processed_at'' PNone),
                 rule80,
                 '''']"
    using parts(1) by (rule banner_strings)
  have ms: "if truthy (dict_get r ''metadata'' PNone)
            then take 2 ms = [''DOCUMENT METADATA:'', dashes] else ms = []"
    using metadata_section_shape [OF parts(2)] by (rule section_shape_strings)
  have ss: "if truthy (dict_get r ''structure'' PNone)
            then take 2 ss = [''DOCUMENT STRUCTURE:'', dashes] else ss = []"
    using structure_section_shape [OF parts(3)] by (rule section_shape_strings)
  have im: "if truthy (dict_get r ''images'' PNone)
            then take 2 im = [''EXTRACTED IMAGES:'', dashes] else im = []"
    using images_section_shape [OF parts(4)] by (rule section_shape_strings)
  have ts: "if truthy (dict_get r ''tables'' PNone)
            then take 2 ts = [''EXTRACTED TABLES:'', dashes] else ts = []"
    using tables_section_shape [OF parts(5)] by (rule section_shape_strings)
  have "if truthy (dict_get r ''text_content'' PNone)
        then take 2 (map PStr xs) = [PStr ''EXTRACTED TEXT CONTENT:'', PStr dashes]
        else map PStr xs = []"
    using text_section_shape [OF parts(6)] by (simp split: if_splits)
  then have xs: "if truthy (dict_get r ''text_content'' PNone)
            then take 2 xs = [''EXTRACTED TEXT CONTENT:'', dashes] else xs = []"
    by (rule section_shape_strings)
  show ?thesis
    using whole hs parts(2-6) ms ss im ts xs by blast
qed

text \<open>
  The sample aggregate has metadata and no images.
\<close>

theorem every_section_is_conditional_witness:
  "\<not> has_key sample_results ''error'' \<and>
   generate_output_text ascii_title sample_results = Inr sample_report \<and>
   truthy (dict_get sample_results ''metadata'' PNone) \<and>
   \<not> truthy (dict_get sample_results ''images'' PNone) \<and>
   (\<exists>hs ms ss im ts xs rest.
      sample_report = lines_text hs @ lines_text ms @ lines_text ss @ lines_text im @
                      lines_text ts @ lines_text xs @ rest \<and>
      metadata_section ascii_title sample_results = Inr (map PStr ms) \<and>
      images_section sample_results = Inr (map PStr im) \<and>
      take 2 ms = [''DOCUMENT METADATA:'', dashes] \<and> im = [])"
proof -
  have m: "truthy (dict_get sample_results ''metadata'' PNone)"
    and i: "\<not> truthy (dict_get sample_results ''images'' PNone)"
    by (simp_all add: sample_results_def dict_get_def)
  from every_section_is_conditional [OF sample_no_error sample_rendering]
  show ?thesis
    using sample_no_error sample_rendering m i by (simp only: if_True if_False simp_thms) blast
qed

text \<open>
  Claim C6. The text that \<open>generate_output_text\<close> returns for an aggregate without
  \<open>error\<close> ends with the OCR section followed by the six lines of the summary. The OCR
  section is the header, a rule, the OCR text and an empty line when \<open>ocr_text\<close> is
  true and not equal to \<open>text_content\<close> (taken as the empty string when absent), and
  it is no line at all otherwise. For strings this says: the section is present exactly
  when the OCR text is non-empty and different from the text; equal texts give no OCR
  section.
\<close>

theorem ocr_section_iff_nonempty_and_different:
  assumes "\<not> has_key r ''error''" and "generate_output_text title r = Inr report"
  shows "\<exists>before os sm.
           output_lines title r = Inr (map PStr (before @ os @ sm)) \<and>
           report = lines_text before @ lines_text os @ lines_text (butlast sm) @ last sm \<and>
           ocr_section r = Inr (map PStr os) \<and>
           summary r = Inr (map PStr sm) \<and>
           length sm = 6 \<and>
           take 2 sm = [''PROCESSING SUMMARY:'', dashes] \<and>
           (if truthy (dict_get r ''ocr_text'' PNone) \<and>
               \<not> py_eq (dict_get r ''ocr_text'' PNone) (dict_get r ''text_content'' (PStr ''''))
            then \<exists>s. dict_get r ''ocr_text'' PNone = PStr s \<and>
                     os = [''OCR EXTRACTED TEXT:'', dashes, s, '''']
            else os = []) \<and>
           (os \<noteq> [] \<longleftrightarrow>
              truthy (dict_get r ''ocr_text'' PNone) \<and>
              \<not> py_eq (dict_get r ''ocr_text'' PNone) (dict_get r ''text_content'' (PStr ''''))) \<and>
           (\<forall>ocr_text text_content.
              dict_get r ''ocr_text'' PNone = PStr ocr_text \<and>
              dict_get r ''text_content'' (PStr '''') = PStr text_content \<longrightarrow>
              (os \<noteq> [] \<longleftrightarrow> ocr_text \<noteq> [] \<and> ocr_text \<noteq> text_content))"
proof -
  from report_structure [OF assms]
  obtain hs ms ss im ts xs os sm where
    lines: "output_lines title r = Inr (map PStr (hs @ ms @ ss @ im @ ts @ xs @ os @ sm))"
    and parts: "ocr_section r = Inr (map PStr os)" "summary r = Inr (map PStr sm)"
    and rep: "report = lines_text (hs @ ms @ ss @ im @ ts @ xs @ os @ butlast sm) @ last sm"
    by blast
  have l: "output_lines title r = Inr (map PStr ((hs @ ms @ ss @ im @ ts @ xs) @ os @ sm))"
    using lines by simp
  have t: "report = lines_text (hs @ ms @ ss @ im @ ts @ xs) @ lines_text os @
                    lines_text (butlast sm) @ last sm"
    using rep by simp
  have len: "length sm = 6" and top: "take 2 sm = [''PROCESSING SUMMARY:'', dashes]"
    using summary_strings [OF parts(2)] by simp_all
  have c1: "if truthy (dict_get r ''ocr_text'' PNone) \<and>
               \<not> py_eq (dict_get r ''ocr_text'' PNone) (dict_get r ''text_content'' (PStr ''''))
            then \<exists>s. dict_get r ''ocr_text'' PNone = PStr s \<and>
                     os = [''OCR EXTRACTED TEXT:'', dashes, s, '''']
            else os = []"
    using parts(1) by (rule ocr_section_strings)
  have c2: "os \<noteq> [] \<longleftrightarrow>
              truthy (dict_get r ''ocr_text'' PNone) \<and>
              \<not> py_eq (dict_get r ''ocr_text'' PNone) (dict_get r ''text_content'' (PStr ''''))"
    using c1 by (auto split: if_splits)
  have c3: "\<forall>ocr_text text_content.
              dict_get r ''ocr_text'' PNone = PStr ocr_text \<and>
              dict_get r ''text_content'' (PStr '''') = PStr text_content \<longrightarrow>
              (os \<noteq> [] \<longleftrightarrow> ocr_text \<noteq> [] \<and> ocr_text \<noteq> text_content)"
    by (intro allI impI) (simp add: c2)
  show ?thesis
    using l t parts len top c1 c2 c3 by blast
qed

text \<open>
  The scenario of the specification: both texts are \<open>Hello\<close>, and in the report the
  summary follows the text section at once.
\<close>

theorem ocr_section_iff_nonempty_and_different_witness:
  "\<not> has_key sample_results ''error'' \<and>
   generate_output_text ascii_title sample_results = Inr sample_report \<and>
   dict_get sample_results ''ocr_text'' PNone = PStr ''Hello'' \<and>
   dict_get sample_results ''text_content'' (PStr '''') = PStr ''Hello'' \<and>
   ocr_section sample_results = Inr [] \<and>
   (\<exists>before sm.
      output_lines ascii_title sample_results = Inr (map PStr (before @ sm)) \<and>
      sample_report = lines_text before @ lines_text (butlast sm) @ last sm \<and>
      summary sample_results = Inr (map PStr sm))"
proof -
  have o: "dict_get sample_results ''ocr_text'' PNone = PStr ''Hello''"
    and t: "dict_get sample_results ''text_content'' (PStr '''') = PStr ''Hello''"
    by (simp_all add: sample_results_def dict_get_def)
  from ocr_section_iff_nonempty_and_different [OF sample_no_error sample_rendering]
  obtain before os sm where
    l: "output_lines ascii_title sample_results = Inr (map PStr (before @ os @ sm))"
    and r: "sample_report = lines_text before @ lines_text os @ lines_text (butlast sm) @ last sm"
    and os: "ocr_section sample_results = Inr (map PStr os)"
    and sm: "summary sample_results = Inr (map PStr sm)"
    and iff: "\<forall>ocr_text text_content.
              dict_get sample_results ''ocr_text'' PNone = PStr ocr_text \<and>
              dict_get sample_results ''text_content'' (PStr '''') = PStr text_content \<longrightarrow>
              (os \<noteq> [] \<longleftrightarrow> ocr_text \<noteq> [] \<and> ocr_text \<noteq> text_content)"
    by blast
  from iff o t have e: "os = []"
    by blast
  have "output_lines ascii_title sample_results = Inr (map PStr (before @ sm))"
    and "sample_report = lines_text before @ lines_text (butlast sm) @ last sm"
    and "ocr_section sample_results = Inr []"
    using l r os by (simp_all add: e)
  then show ?thesis
    using sample_no_error sample_rendering o t sm by blast
qed

text \<open>
  Claim C7. Let \<open>tables\<close> be a list and its entry \<open>i\<close> a table whose \<open>content\<close> is the
  string \<open>c\<close>. In the text that \<open>generate_output_text\<close> returns for an aggregate
  without \<open>error\<close>, the tables section holds the block of this table: the line
  \<open>Table\<close> with the number \<open>i + 1\<close>, the page, the dimensions and the accuracy, the
  line \<open>Content Summary:\<close> and the content line. The content line is four spaces
  followed by the first 200 characters of \<open>c\<close> and \<open>...\<close> when \<open>c\<close> is longer than 200
  characters, and by \<open>c\<close> unchanged otherwise.
\<close>

theorem table_preview_truncated_at_200:
  assumes "\<not> has_key r ''error''" and "generate_output_text title r = Inr report"
    and "dict_get r ''tables'' PNone = PList tables"
    and "i < length tables"
    and "tables ! i = PDict t"
    and "map_of t ''content'' = Some (PStr c)"
  shows "\<exists>l0 b0 block b1 l1 last_line.
           block =
             [''Table '' @ py_str (PInt (int (Suc i))) @ '':'',
              ''  Page: '' @ py_str (dict_get t ''page'' (PStr ''Unknown'')),
              ''  Dimensions: '' @ py_str (dict_get t ''shape'' (PStr ''Unknown'')),
              ''  Accuracy: '' @ py_str (dict_get t ''accuracy'' (PStr ''Unknown'')) @ ''%'',
              ''  Content Summary:'',
              ''    '' @ (if 200 < length c then take 200 c @ ''...'' else c)] \<and>
           tables_section r =
             Inr (map PStr ([''EXTRACTED TABLES:'', dashes] @ b0 @ block @ b1 @ [''''])) \<and>
           output_lines title r =
             Inr (map PStr (l0 @ [''EXTRACTED TABLES:'', dashes] @ b0 @ block @ b1 @ [''''] @ l1
                            @ [last_line])) \<and>
           report =
             lines_text (l0 @ [''EXTRACTED TABLES:'', dashes] @ b0) @ lines_text block @
             lines_text (b1 @ [''''] @ l1) @ last_line"
proof -
  define block where "block =
             [''Table '' @ py_str (PInt (int (Suc i))) @ '':'',
              ''  Page: '' @ py_str (dict_get t ''page'' (PStr ''Unknown'')),
              ''  Dimensions: '' @ py_str (dict_get t ''shape'' (PStr ''Unknown'')),
              ''  Accuracy: '' @ py_str (dict_get t ''accuracy'' (PStr ''Unknown'')) @ ''%'',
              ''  Content Summary:'',
              ''    '' @ (if 200 < length c then take 200 c @ ''...'' else c)]"
  from report_structure [OF assms(1,2)]
  obtain hs ms ss im ts xs os sm where
    lines: "output_lines title r = Inr (map PStr (hs @ ms @ ss @ im @ ts @ xs @ os @ sm))"
    and tables: "tables_section r = Inr (map PStr ts)"
    and sm: "summary r = Inr (map PStr sm)"
    and rep: "report = lines_text (hs @ ms @ ss @ im @ ts @ xs @ os @ butlast sm) @ last sm"
    by blast
  from tables_section_block [OF tables assms(3-6)]
  obtain b0 b1 where ts: "ts = [''EXTRACTED TABLES:'', dashes] @ b0 @ block @ b1 @ ['''']"
    unfolding block_def by blast
  have "length sm = 6"
    using summary_strings [OF sm] by simp
  then have "sm \<noteq> []"
    by auto
  then have split: "sm = butlast sm @ [last sm]"
    by simp
  have "hs @ ms @ ss @ im @ ts @ xs @ os @ sm =
        (hs @ ms @ ss @ im) @ [''EXTRACTED TABLES:'', dashes] @ b0 @ block @ b1 @ [''''] @
        (xs @ os @ butlast sm) @ [last sm]"
    using split by (simp add: ts)
  with lines have l: "output_lines title r =
      Inr (map PStr ((hs @ ms @ ss @ im) @ [''EXTRACTED TABLES:'', dashes] @ b0 @ block @ b1 @
                     [''''] @ (xs @ os @ butlast sm) @ [last sm]))"
    by (simp only:)
  have t: "report =
             lines_text ((hs @ ms @ ss @ im) @ [''EXTRACTED TABLES:'', dashes] @ b0) @
             lines_text block @ lines_text (b1 @ [''''] @ (xs @ os @ butlast sm)) @ last sm"
    using rep by (simp add: ts)
  have s: "tables_section r =
             Inr (map PStr ([''EXTRACTED TABLES:'', dashes] @ b0 @ block @ b1 @ ['''']))"
    using tables by (simp only: ts)
  have b: "block =
             [''Table '' @ py_str (PInt (int (Suc i))) @ '':'',
              ''  Page: '' @ py_str (dict_get t ''page'' (PStr ''Unknown'')),
              ''  Dimensions: '' @ py_str (dict_get t ''shape'' (PStr ''Unknown'')),
              ''  Accuracy: '' @ py_str (dict_get t ''accuracy'' (PStr ''Unknown'')) @ ''%'',
              ''  Content Summary:'',
              ''    '' @ (if 200 < length c then take 200 c @ ''...'' else c)]"
    by (rule block_def)
  show ?thesis
    using b s l t by blast
qed

text \<open>
  An aggregate whose only table has a content of 201 characters: its report shows 200
  of them and the marker.
\<close>

theorem table_preview_truncated_at_200_witness:
  "\<not> has_key table_results ''error'' \<and>
   generate_output_text ascii_title table_results = Inr table_report \<and>
   dict_get table_results ''tables'' PNone = PList [PDict wide_table] \<and>
   map_of wide_table ''content'' = Some (PStr (replicate 201 (CHR ''x''))) \<and>
   (\<exists>before after.
      table_report =
        before @
        lines_text
          [''Table 1:'',
           ''  Page: 2'',
           ''  Dimensions: Unknown'',
           ''  Accuracy: Unknown%'',
           ''  Content Summary:'',
           ''    '' @ replicate 200 (CHR ''x'') @ ''...''] @
        after)"
proof -
  have tbl: "dict_get table_results ''tables'' PNone = PList [PDict wide_table]"
    by (simp add: table_results_def dict_get_def)
  have c: "map_of wide_table ''content'' = Some (PStr (replicate 201 (CHR ''x'')))"
    by (simp add: wide_table_def)
  have i: "0 < length [PDict wide_table]" and n: "[PDict wide_table] ! 0 = PDict wide_table"
    by simp_all
  from table_preview_truncated_at_200 [OF table_no_error table_rendering tbl i n c]
  obtain l0 b0 block b1 l1 last_line where
    b: "block =
             [''Table '' @ py_str (PInt (int (Suc 0))) @ '':'',
              ''  Page: '' @ py_str (dict_get wide_table ''page'' (PStr ''Unknown'')),
              ''  Dimensions: '' @ py_str (dict_get wide_table ''shape'' (PStr ''Unknown'')),
              ''  Accuracy: '' @ py_str (dict_get wide_table ''accuracy'' (PStr ''Unknown'')) @ ''%'',
              ''  Content Summary:'',
              ''    '' @ (if 200 < length (replicate 201 (CHR ''x''))
                         then take 200 (replicate 201 (CHR ''x'')) @ ''...''
                         else replicate 201 (CHR ''x''))]"
    and r: "table_report =
             lines_text (l0 @ [''EXTRACTED TABLES:'', dashes] @ b0) @ lines_text block @
             lines_text (b1 @ [''''] @ l1) @ last_line"
    by blast
  have "block =
          [''Table 1:'',
           ''  Page: 2'',
           ''  Dimensions: Unknown'',
           ''  Accuracy: Unknown%'',
           ''  Content Summary:'',
           ''    '' @ replicate 200 (CHR ''x'') @ ''...'']"
    unfolding b by (simp add: wide_table_def dict_get_def py_str_def dec.simps char_of_eq_iff)
  with r have "table_report =
        lines_text (l0 @ [''EXTRACTED TABLES:'', dashes] @ b0) @
        lines_text
          [''Table 1:'',
           ''  Page: 2'',
           ''  Dimensions: Unknown'',
           ''  Accuracy: Unknown%'',
           ''  Content Summary:'',
           ''    '' @ replicate 200 (CHR ''x'') @ ''...''] @
        (lines_text (b1 @ [''''] @ l1) @ last_line)"
    by (simp only:)
  then show ?thesis
    using table_no_error table_rendering tbl c by blast
qed

text \<open>
  Claim C9 does not hold as stated for content sniffing: an exception of
  \<open>magic.from_file\<close> is caught, but it is not turned into an invalid outcome. The
  extension is checked instead, and for a well-formed \<open>a.pdf\<close> the outcome is valid.
\<close>

theorem sniffing_fault_still_valid:
  "raised no_magic_world ''a.pdf'' MagicFromFile \<and>
   MagicFromFile \<in> set (snd (validate_pdf no_magic_world ''a.pdf'')) \<and>
   fst (validate_pdf no_magic_world ''a.pdf'') =
     Inr [(''valid'', PBool True), (''file_size'', PInt 2048), (''num_pages'', PInt 1),
          (''has_text'', PBool True)]"
  by (simp add: validate_unfold world_defs pdf_extension_def strip_def isspace_def)
text \<open>
  Claim C9, amended. \<open>validate_pdf\<close> never raises: for every world and path it returns
  an outcome, which is valid or is invalid with a non-empty error message. Every
  exception of a call that it makes, other than content sniffing, gives an invalid
  outcome. An exception of content sniffing gives the extension check: an invalid
  outcome unless the extension is \<open>.pdf\<close>, and otherwise validation goes on to open
  the file.
\<close>

theorem validate_pdf_always_returns:
  "\<exists>d. fst (validate_pdf W p) = Inr d \<and>
     (map_of d ''valid'' = Some (PBool True) \<or> (\<exists>msg. d = invalid msg \<and> msg \<noteq> [])) \<and>
     ((\<exists>c \<in> set (snd (validate_pdf W p)). c \<noteq> MagicFromFile \<and> raised W p c) \<longrightarrow>
        (\<exists>msg. d = invalid msg \<and> msg \<noteq> [])) \<and>
     (MagicFromFile \<in> set (snd (validate_pdf W p)) \<and> raised W p MagicFromFile \<longrightarrow>
        (if pdf_extension p then OpenFile \<in> set (snd (validate_pdf W p))
         else d = invalid ''File does not have .pdf extension''))"
  apply (cases "os_path_exists W p"; simp add: validate_unfold)
  apply (cases "os_path_getsize W p"; simp add: validate_unfold)
  apply (cases "magic_from_file W p"; simp add: validate_unfold)
   apply (cases "open_rb W p"; simp add: validate_unfold reader_error_def)
   apply (cases "pdf_reader W p"; simp add: validate_unfold reader_error_def)
   apply (cases "len_pages W p"; simp add: validate_unfold reader_error_def)
   apply (cases "extract_first_page W p"; simp add: validate_unfold reader_error_def)
  apply (cases "open_rb W p"; simp add: validate_unfold reader_error_def)
  apply (cases "pdf_reader W p"; simp add: validate_unfold reader_error_def)
  apply (cases "len_pages W p"; simp add: validate_unfold reader_error_def)
  apply (cases "extract_first_page W p"; simp add: validate_unfold reader_error_def)
  done
text \<open>
  Reading the size of the file is denied.
\<close>

theorem validate_pdf_always_returns_witness:
  "GetSize \<in> set (snd (validate_pdf denied_world ''a.pdf'')) \<and>
   raised denied_world ''a.pdf'' GetSize \<and>
   fst (validate_pdf denied_world ''a.pdf'') = Inr (invalid ''Validation error: Permission denied'')"
proof -
  have t: "snd (validate_pdf denied_world ''a.pdf'') = [PathExists, GetSize]"
    and r: "raised denied_world ''a.pdf'' GetSize"
    by (simp_all add: validate_unfold world_defs denied_world_def)
  from validate_pdf_always_returns [of denied_world "''a.pdf''"] t r
  obtain msg where "fst (validate_pdf denied_world ''a.pdf'') = Inr (invalid msg)"
    by auto
  moreover have "fst (validate_pdf denied_world ''a.pdf'') =
      Inr (invalid ''Validation error: Permission denied'')"
    by (simp add: validate_unfold world_defs denied_world_def)
  ultimately show ?thesis
    using t r by simp
qed
text \<open>
  Claim C10. Rendering an aggregate that \<open>process_pdf\<close> returns never raises
  \<open>KeyError\<close>. For the aggregate of the fault path, which has no content field,
  rendering succeeds and gives the banner followed by the \<open>ERROR:\<close> line and nothing
  after it; so it does for the aggregate of a failed validation, which \<open>process_pdf\<close>
  returns when the progress message before the validation was printed. More generally
  no content field is required: an aggregate with \<open>filename\<close> and \<open>processed_at\<close>
  never makes the renderer raise \<open>KeyError\<close>.
\<close>

theorem rendering_never_misses_a_field:
  "(\<forall>x. generate_output_text title (fst (process_pdf W p fn)) = Inl x \<longrightarrow> exn_class x \<noteq> KeyError) \<and>
   (fst (process_body W p fn) = Inl e \<longrightarrow>
      generate_output_text title (fst (process_pdf W p fn)) =
        Inr (lines_text
               [rule80, ''PDF PROCESSING RESULTS: '' @ fn, ''Processed at: '' @ now_handler W,
                rule80, '''']
             @ ''ERROR: '' @ ''Processing failed: '' @ descr e)) \<and>
   (print_out W (''Processing '' @ fn @ ''...'') = Inr () \<and>
    fst (validate_pdf W p) = Inr (invalid msg) \<longrightarrow>
      generate_output_text title (fst (process_pdf W p fn)) =
        Inr (lines_text
               [rule80, ''PDF PROCESSING RESULTS: '' @ fn, ''Processed at: '' @ now_start W,
                rule80, '''']
             @ ''ERROR: '' @ msg)) \<and>
   (has_key r ''filename'' \<and> has_key r ''processed_at'' \<longrightarrow>
      (\<forall>x. generate_output_text title r = Inl x \<longrightarrow> exn_class x \<noteq> KeyError))"
proof (intro conjI allI impI)
  fix x
  assume "generate_output_text title (fst (process_pdf W p fn)) = Inl x"
  moreover have "no_key_error (generate_output_text title (fst (process_pdf W p fn)))"
    using process_pdf_has_keys [of W p fn] by (simp add: no_key_error_generate_output_text)
  ultimately show "exn_class x \<noteq> KeyError"
    by simp
next
  assume "fst (process_body W p fn) = Inl e"
  then have "fst (process_pdf W p fn) = failure_results W fn e"
    by (rule process_pdf_fault)
  then show "generate_output_text title (fst (process_pdf W p fn)) =
        Inr (lines_text
               [rule80, ''PDF PROCESSING RESULTS: '' @ fn, ''Processed at: '' @ now_handler W,
                rule80, '''']
             @ ''ERROR: '' @ ''Processing failed: '' @ descr e)"
    by (simp add: render_error_aggregate [of _ fn "now_handler W" "''Processing failed: '' @ descr e"]
          failure_results_def)
next
  assume a: "print_out W (''Processing '' @ fn @ ''...'') = Inr () \<and>
    fst (validate_pdf W p) = Inr (invalid msg)"
  then have printed: "print_out W (''Processing '' @ fn @ ''...'') = Inr ()"
    and inv: "fst (validate_pdf W p) = Inr (invalid msg)"
    by simp_all
  have "fst (process_pdf W p fn) =
           [(''filename'', PStr fn),
             (''processed_at'', PStr (now_start W)),
             (''text_content'', PStr ''''),
             (''structure'', PDict []),
             (''images'', PList []),
             (''tables'', PList []),
             (''metadata'', PDict []),
             (''ocr_text'', PStr ''''),
             (''error'', PStr msg)]"
    by (simp add: process_pdf_invalid [OF printed inv])
  then show "generate_output_text title (fst (process_pdf W p fn)) =
        Inr (lines_text
               [rule80, ''PDF PROCESSING RESULTS: '' @ fn, ''Processed at: '' @ now_start W,
                rule80, '''']
             @ ''ERROR: '' @ msg)"
    by (simp add: render_error_aggregate [of _ fn "now_start W" msg])
next
  fix x
  assume keys: "has_key r ''filename'' \<and> has_key r ''processed_at''"
    and "generate_output_text title r = Inl x"
  moreover have "no_key_error (generate_output_text title r)"
    using keys by (simp add: no_key_error_generate_output_text)
  ultimately show "exn_class x \<noteq> KeyError"
    by simp
qed

text \<open>
  The report of the document whose table extractor raises, and the report of a path
  that does not exist.
\<close>

theorem rendering_never_misses_a_field_witness:
  "fst (process_body broken_tables_world ''a.pdf'' ''a.pdf'') = Inl (Exn OtherError ''boom'') \<and>
   generate_output_text ascii_title (fst (process_pdf broken_tables_world ''a.pdf'' ''a.pdf'')) =
     Inr (lines_text
            [rule80, ''PDF PROCESSING RESULTS: a.pdf'', ''Processed at: 2024-05-01 12:00:03'',
             rule80, '''']
          @ ''ERROR: Processing failed: boom'') \<and>
   print_out missing_file_world (''Processing '' @ ''a.pdf'' @ ''...'') = Inr () \<and>
   fst (validate_pdf missing_file_world ''a.pdf'') = Inr (invalid ''File does not exist'') \<and>
   generate_output_text ascii_title (fst (process_pdf missing_file_world ''a.pdf'' ''a.pdf'')) =
     Inr (lines_text
            [rule80, ''PDF PROCESSING RESULTS: a.pdf'', ''Processed at: 2024-05-01 12:00:00'',
             rule80, '''']
          @ ''ERROR: File does not exist'')"
proof -
  have "first_fault (step_faults broken_tables_world ''a.pdf'' ''a.pdf'') =
      Some (Exn OtherError ''boom'')"
    by (simp add: step_faults_def broken_tables_passes) (simp add: fault_def world_defs)
  then have b: "fst (process_body broken_tables_world ''a.pdf'' ''a.pdf'') =
      Inl (Exn OtherError ''boom'')"
    by (simp only: process_body_fault_iff)
  have p: "print_out missing_file_world (''Processing '' @ ''a.pdf'' @ ''...'') = Inr ()"
    by (simp add: world_defs)
  have v: "fst (validate_pdf missing_file_world ''a.pdf'') = Inr (invalid ''File does not exist'')"
    by (simp add: validate_unfold world_defs)
  from rendering_never_misses_a_field
    [of ascii_title broken_tables_world "''a.pdf''" "''a.pdf''" "Exn OtherError ''boom''"] b
  have 1: "generate_output_text ascii_title (fst (process_pdf broken_tables_world ''a.pdf'' ''a.pdf'')) =
        Inr (lines_text
               [rule80, ''PDF PROCESSING RESULTS: '' @ ''a.pdf'',
                ''Processed at: '' @ now_handler broken_tables_world, rule80, '''']
             @ ''ERROR: '' @ ''Processing failed: '' @ descr (Exn OtherError ''boom''))"
    by blast
  from rendering_never_misses_a_field
    [of ascii_title missing_file_world "''a.pdf''" "''a.pdf''" _ "''File does not exist''"] p v
  have 2: "generate_output_text ascii_title (fst (process_pdf missing_file_world ''a.pdf'' ''a.pdf'')) =
        Inr (lines_text
               [rule80, ''PDF PROCESSING RESULTS: '' @ ''a.pdf'',
                ''Processed at: '' @ now_start missing_file_world, rule80, '''']
             @ ''ERROR: '' @ ''File does not exist'')"
    by blast
  have t1: "generate_output_text ascii_title (fst (process_pdf broken_tables_world ''a.pdf'' ''a.pdf'')) =
     Inr (lines_text
            [rule80, ''PDF PROCESSING RESULTS: a.pdf'', ''Processed at: 2024-05-01 12:00:03'',
             rule80, '''']
          @ ''ERROR: Processing failed: boom'')"
    unfolding 1 by (simp add: world_defs)
  have t2: "generate_output_text ascii_title (fst (process_pdf missing_file_world ''a.pdf'' ''a.pdf'')) =
     Inr (lines_text
            [rule80, ''PDF PROCESSING RESULTS: a.pdf'', ''Processed at: 2024-05-01 12:00:00'',
             rule80, '''']
          @ ''ERROR: File does not exist'')"
    unfolding 2 by (simp add: world_defs)
  show ?thesis
    using b p v t1 t2 by blast
qed


end
